theory Spec2Isabelle
  imports Complex_Main "HOL-Library.Word" "HOL-Library.Log_Nat"
begin

section \<open>JavaScript strings\<close>

text \<open>
  A JavaScript string is a sequence of 16-bit code units. The functions below are the
  string methods that \<^verbatim>\<open>src/App.tsx\<close> calls, each following its ECMAScript
  definition. \<open>u\<close> embeds an ASCII literal of the source.
\<close>

type_synonym jsstring = "16 word list"

definition cu :: "char \<Rightarrow> 16 word" where
  "cu c = of_char c"

definition u :: "string \<Rightarrow> jsstring" where
  "u s = map cu s"

text \<open>LineTerminator: LF, CR, LS, PS. The regular expression atom \<^verbatim>\<open>.\<close> excludes these.\<close>

definition isLineTerminator :: "16 word \<Rightarrow> bool" where
  "isLineTerminator c = (c = 0xA \<or> c = 0xD \<or> c = 0x2028 \<or> c = 0x2029)"

text \<open>
  WhiteSpace or LineTerminator: what \<^verbatim>\<open>trim\<close>, \<^verbatim>\<open>parseInt\<close> and the class
  \<^verbatim>\<open>\s\<close> count as blank (TAB, VT, FF, SP, NBSP, ZWNBSP, the category Zs, and the
  line terminators).
\<close>

definition isWhiteSpace :: "16 word \<Rightarrow> bool" where
  "isWhiteSpace c =
     (c = 0x9 \<or> c = 0xB \<or> c = 0xC \<or> c = 0x20 \<or> c = 0xA0 \<or> c = 0x1680
      \<or> (0x2000 \<le> c \<and> c \<le> 0x200A) \<or> c = 0x202F \<or> c = 0x205F \<or> c = 0x3000
      \<or> c = 0xFEFF \<or> isLineTerminator c)"

definition trimStart :: "jsstring \<Rightarrow> jsstring" where
  "trimStart s = dropWhile isWhiteSpace s"

definition trim :: "jsstring \<Rightarrow> jsstring" where
  "trim s = rev (dropWhile isWhiteSpace (rev (dropWhile isWhiteSpace s)))"

definition startsWith :: "jsstring \<Rightarrow> jsstring \<Rightarrow> bool" where
  "startsWith s pat = (take (length pat) s = pat)"

text \<open>\<^verbatim>\<open>s.indexOf(pat)\<close>, with \<open>None\<close> for \<open>-1\<close>.\<close>

fun indexOf :: "jsstring \<Rightarrow> jsstring \<Rightarrow> nat option" where
  "indexOf [] pat = (if pat = [] then Some 0 else None)"
| "indexOf (c # cs) pat =
     (if startsWith (c # cs) pat then Some 0 else map_option Suc (indexOf cs pat))"

definition includes_str :: "jsstring \<Rightarrow> jsstring \<Rightarrow> bool" where
  "includes_str s pat = (indexOf s pat \<noteq> None)"

text \<open>
  \<^verbatim>\<open>s.split(sep)\<close> with a string separator and no limit: an empty separator gives
  the code units; otherwise the pieces between successive occurrences of the
  separator, each search starting where the previous occurrence ended.
\<close>

function split :: "jsstring \<Rightarrow> jsstring \<Rightarrow> jsstring list" where
  "split s sep =
     (if sep = [] then map (\<lambda>c. [c]) s
      else case indexOf s sep of
             None \<Rightarrow> [s]
           | Some j \<Rightarrow> take j s # split (drop (j + length sep) s) sep)"
  by pat_completeness auto
termination
proof (relation "measure (\<lambda>(s, sep). length s)")
  show "wf (measure (\<lambda>(s, sep). length s))"
    by simp
next
  fix s sep :: jsstring and j :: nat
  assume "sep \<noteq> []" and "indexOf s sep = Some j"
  then have "s \<noteq> []"
    by (cases s) auto
  with \<open>sep \<noteq> []\<close> show "((drop (j + length sep) s, sep), (s, sep)) \<in> measure (\<lambda>(s, sep). length s)"
    by (cases s) auto
qed

declare split.simps [simp del]

text \<open>\<^verbatim>\<open>rest.replace(/[()]/g, '')\<close>: every parenthesis is deleted.\<close>

definition replace_parens :: "jsstring \<Rightarrow> jsstring" where
  "replace_parens s = filter (\<lambda>c. c \<noteq> cu CHR ''('' \<and> c \<noteq> cu CHR '')'') s"

section \<open>The regular expression of \<open>formatGasType\<close>\<close>

text \<open>
  The fragment of ECMAScript regular expressions that \<^verbatim>\<open>/(.*?)\s*\((.*?)\)/\<close> uses:
  single-character atoms, greedy and lazy stars over a single-character atom,
  capture groups and concatenation. \<open>rmatch r s caps\<close> lists, in the order in which the
  backtracking matcher tries them, the ways \<open>r\<close> can match a prefix of \<open>s\<close>: each with
  the remaining input and the captures.
\<close>

datatype atom = Dot | Space | Lit "16 word"

datatype regex =
    Atom atom
  | Star atom
  | LazyStar atom
  | Group nat regex
  | Seq regex regex

type_synonym captures = "nat \<Rightarrow> jsstring option"

fun atom_ok :: "atom \<Rightarrow> 16 word \<Rightarrow> bool" where
  "atom_ok Dot c = (\<not> isLineTerminator c)"
| "atom_ok Space c = isWhiteSpace c"
| "atom_ok (Lit a) c = (c = a)"

fun rmatch :: "regex \<Rightarrow> jsstring \<Rightarrow> captures \<Rightarrow> (jsstring \<times> captures) list" where
  "rmatch (Atom a) s caps =
     (case s of [] \<Rightarrow> [] | c # cs \<Rightarrow> if atom_ok a c then [(cs, caps)] else [])"
| "rmatch (Star a) s caps =
     map (\<lambda>k. (drop k s, caps)) (rev [0 ..< Suc (length (takeWhile (atom_ok a) s))])"
| "rmatch (LazyStar a) s caps =
     map (\<lambda>k. (drop k s, caps)) [0 ..< Suc (length (takeWhile (atom_ok a) s))]"
| "rmatch (Group i r) s caps =
     map (\<lambda>(s', caps'). (s', caps'(i \<mapsto> take (length s - length s') s))) (rmatch r s caps)"
| "rmatch (Seq r1 r2) s caps =
     concat (map (\<lambda>(s', caps'). rmatch r2 s' caps') (rmatch r1 s caps))"

text \<open>
  \<^verbatim>\<open>s.match(r)\<close> for a regular expression without the global flag: the first start
  position, from the left, at which the matcher succeeds, and there the first way it
  succeeds. The result is the captures (\<open>match[i]\<close> is \<open>caps i\<close>), \<open>None\<close> for
  \<^verbatim>\<open>null\<close>.
\<close>

fun match :: "jsstring \<Rightarrow> regex \<Rightarrow> captures option" where
  "match [] r = (case rmatch r [] Map.empty of [] \<Rightarrow> None | (_, caps) # _ \<Rightarrow> Some caps)"
| "match (c # cs) r =
     (case rmatch r (c # cs) Map.empty of [] \<Rightarrow> match cs r | (_, caps) # _ \<Rightarrow> Some caps)"

text \<open>\<^verbatim>\<open>/(.*?)\s*\((.*?)\)/\<close>\<close>

definition gas_regex :: regex where
  "gas_regex =
     Seq (Group 1 (LazyStar Dot))
       (Seq (Star Space)
         (Seq (Atom (Lit (cu CHR ''('')))
           (Seq (Group 2 (LazyStar Dot)) (Atom (Lit (cu CHR '')''))))))"

section \<open>The catalog builder\<close>

datatype js_error = TypeError

record GasFormat =
  displayName :: jsstring
  components :: "jsstring list"

text \<open>
  \<open>formatGasType\<close> (the spec's \<open>parseGasLabel\<close>). The destructuring
  \<^verbatim>\<open>const [count, rest] = gasType.split(" in 1 ")\<close> leaves \<open>rest\<close> undefined when
  the split has a single piece, and \<^verbatim>\<open>rest.replace\<close> then throws a TypeError.
\<close>

definition formatGasType :: "jsstring \<Rightarrow> js_error + GasFormat" where
  "formatGasType gasType =
     (if includes_str gasType (u '' in 1'') then
        (case split gasType (u '' in 1 '') of
           count # rest # _ \<Rightarrow>
             Inr \<lparr>displayName = count @ u ''-in-1 Gas Mixture'',
                  components = map trim (split (replace_parens rest) (u '',''))\<rparr>
         | _ \<Rightarrow> Inl TypeError)
      else
        (case match gasType gas_regex of
           Some m \<Rightarrow>
             (case (m 1, m 2) of
                (Some g1, Some g2) \<Rightarrow> Inr \<lparr>displayName = trim g1, components = [trim g2]\<rparr>
              | _ \<Rightarrow> Inl TypeError)
         | None \<Rightarrow> Inr \<lparr>displayName = gasType, components = [gasType]\<rparr>))"

text \<open>
  Rule 1 of \<open>parseGasLabel\<close> as the specification words it (section 4.1), for comparison
  with \<open>formatGasType\<close>: if the label contains \<^verbatim>\<open>" in 1"\<close>, split it at the first
  occurrence of \<^verbatim>\<open>" in 1 "\<close> into \<open>count\<close> (the left part) and \<open>rest\<close> (the right
  part); strip the parentheses from \<open>rest\<close>, split on commas and trim each piece.
  \<open>None\<close> where the rule does not apply or names no split point.
\<close>

definition parseGasLabel_rule1 :: "jsstring \<Rightarrow> GasFormat option" where
  "parseGasLabel_rule1 label =
     (if includes_str label (u '' in 1'') then
        (case indexOf label (u '' in 1 '') of
           None \<Rightarrow> None
         | Some j \<Rightarrow>
             let count = take j label;
                 rest = drop (j + length (u '' in 1 '')) label
             in Some \<lparr>displayName = count @ u ''-in-1 Gas Mixture'',
                      components = map trim (split (replace_parens rest) (u '',''))\<rparr>)
      else None)"

section \<open>JavaScript numbers\<close>

text \<open>
  A Number is an IEEE 754 binary64 value. \<open>Fin q\<close> is the finite value \<open>q\<close>; the two
  zeros are one value \<open>Fin 0\<close> (nothing in \<^verbatim>\<open>App.tsx\<close> tells them apart: it neither
  divides nor inspects a sign). Arithmetic computes the exact rational result and
  rounds it with \<open>binary64\<close>: to the nearest value with a 53-bit significand, ties to
  the even significand, to an infinity from \<open>2^1024 - 2^970\<close> on.
\<close>

datatype number = NaN | PosInfinity | NegInfinity | Fin rat

definition pow2 :: "int \<Rightarrow> rat" where
  "pow2 e = 2 powi e"

text \<open>\<open>ilog2 q\<close> is the \<open>e\<close> with \<open>2^e \<le> q < 2^(e+1)\<close>, for \<open>q > 0\<close>.\<close>

definition ilog2 :: "rat \<Rightarrow> int" where
  "ilog2 q = (if 1 \<le> q then bitlen \<lfloor>q\<rfloor> - 1 else - bitlen (\<lceil>1 / q\<rceil> - 1))"

definition round_even :: "rat \<Rightarrow> int" where
  "round_even m =
     (let f = \<lfloor>m\<rfloor>; r = m - of_int f
      in if r < 1 / 2 then f else if 1 / 2 < r then f + 1 else if even f then f else f + 1)"

definition binary64 :: "rat \<Rightarrow> number" where
  "binary64 q =
     (if q = 0 then Fin 0
      else
        let e = max (ilog2 \<bar>q\<bar> - 52) (- 1074);
            r = of_int (round_even (\<bar>q\<bar> / pow2 e)) * pow2 e
        in if 2 ^ 1024 \<le> r then (if 0 < q then PosInfinity else NegInfinity)
           else Fin (sgn q * r))"

text \<open>A numeric literal of the source is the binary64 value nearest its decimal value.\<close>

definition lit :: "rat \<Rightarrow> number" where
  "lit q = binary64 q"

fun negative :: "number \<Rightarrow> bool" where
  "negative (Fin q) = (q < 0)"
| "negative NegInfinity = True"
| "negative _ = False"

fun positive :: "number \<Rightarrow> bool" where
  "positive (Fin q) = (0 < q)"
| "positive PosInfinity = True"
| "positive _ = False"

instantiation number :: "{times, plus}"
begin

fun times_number :: "number \<Rightarrow> number \<Rightarrow> number" where
  "times_number NaN _ = NaN"
| "times_number _ NaN = NaN"
| "times_number (Fin a) (Fin b) = binary64 (a * b)"
| "times_number x y =
     (if x = Fin 0 \<or> y = Fin 0 then NaN
      else if negative x = negative y then PosInfinity else NegInfinity)"

fun plus_number :: "number \<Rightarrow> number \<Rightarrow> number" where
  "plus_number NaN _ = NaN"
| "plus_number _ NaN = NaN"
| "plus_number (Fin a) (Fin b) = binary64 (a + b)"
| "plus_number PosInfinity NegInfinity = NaN"
| "plus_number NegInfinity PosInfinity = NaN"
| "plus_number PosInfinity _ = PosInfinity"
| "plus_number _ PosInfinity = PosInfinity"
| "plus_number NegInfinity _ = NegInfinity"
| "plus_number _ NegInfinity = NegInfinity"

instance ..

end

definition isNaN :: "number \<Rightarrow> bool" where
  "isNaN x = (x = NaN)"

subsection \<open>\<open>parseInt\<close>\<close>

definition digit_of :: "16 word \<Rightarrow> nat option" where
  "digit_of c =
     (if 0x30 \<le> c \<and> c \<le> 0x39 then Some (unat c - 0x30)
      else if 0x61 \<le> c \<and> c \<le> 0x7A then Some (unat c - 0x61 + 10)
      else if 0x41 \<le> c \<and> c \<le> 0x5A then Some (unat c - 0x41 + 10)
      else None)"

definition is_digit :: "nat \<Rightarrow> 16 word \<Rightarrow> bool" where
  "is_digit R c = (case digit_of c of Some d \<Rightarrow> d < R | None \<Rightarrow> False)"

definition digits_value :: "nat \<Rightarrow> jsstring \<Rightarrow> nat" where
  "digits_value R Z =
     foldl (\<lambda>acc c. acc * R + (case digit_of c of Some d \<Rightarrow> d | None \<Rightarrow> 0)) 0 Z"

text \<open>
  \<^verbatim>\<open>parseInt(string)\<close> without a radix: leading blanks are skipped, then an optional
  sign, then \<^verbatim>\<open>0x\<close> or \<^verbatim>\<open>0X\<close> selects radix 16 (otherwise 10); the longest run of
  digits of that radix is the value, and there being none gives NaN. What follows the
  digits is ignored. (Past 20 significant decimal digits ECMAScript lets an engine
  round the integer before converting it; the model converts the exact integer.)
\<close>

definition parseInt :: "jsstring \<Rightarrow> number" where
  "parseInt string =
     (let S = trimStart string;
          (sign, S1) =
            (case S of
               [] \<Rightarrow> (1 :: int, S)
             | c # cs \<Rightarrow>
                 if c = cu CHR ''-'' then (- 1, cs)
                 else if c = cu CHR ''+'' then (1, cs)
                 else (1, S));
          (R, S2) =
            (if startsWith S1 (u ''0x'') \<or> startsWith S1 (u ''0X'') then (16, drop 2 S1)
             else (10, S1));
          Z = takeWhile (is_digit R) S2
      in if Z = [] then NaN else binary64 (of_int (sign * int (digits_value R Z))))"

subsection \<open>\<open>toFixed\<close> and \<open>parseFloat\<close>\<close>

text \<open>
  The text that \<^verbatim>\<open>toFixed\<close> produces is represented by the number that
  \<^verbatim>\<open>parseFloat\<close> reads in it, not by its characters: \<open>Decimal q\<close> is a decimal numeral
  that is read as \<open>q\<close>, before the conversion to binary64.
\<close>

datatype numeral_text = TextNaN | TextInfinity | TextNegInfinity | Decimal rat

text \<open>
  \<^verbatim>\<open>x.toFixed(f)\<close>: a value that is not finite, or is at least \<open>10^21\<close> in
  magnitude, is printed by \<^verbatim>\<open>ToString\<close>, the shortest digits that are read back as
  the value itself. Otherwise, with the sign set aside, \<open>n\<close> is the integer for which
  \<open>n / 10^f\<close> is nearest the magnitude, the larger one if two are equally near; the text
  is the sign and the digits of \<open>n\<close> with \<open>f\<close> of them after the point.
\<close>

fun toFixed :: "number \<Rightarrow> nat \<Rightarrow> numeral_text" where
  "toFixed NaN f = TextNaN"
| "toFixed PosInfinity f = TextInfinity"
| "toFixed NegInfinity f = TextNegInfinity"
| "toFixed (Fin x) f =
     (if 10 ^ 21 \<le> \<bar>x\<bar> then Decimal x
      else
        let n = \<lfloor>\<bar>x\<bar> * 10 ^ f + 1 / 2\<rfloor>
        in Decimal (sgn x * of_int n / 10 ^ f))"

text \<open>
  \<^verbatim>\<open>parseFloat\<close> on such a text: the binary64 value nearest the numeral. (Past 20
  significant digits ECMAScript lets an engine round the numeral before converting it;
  the model converts the exact numeral.)
\<close>

fun parseFloat :: "numeral_text \<Rightarrow> number" where
  "parseFloat TextNaN = NaN"
| "parseFloat TextInfinity = PosInfinity"
| "parseFloat TextNegInfinity = NegInfinity"
| "parseFloat (Decimal q) = binary64 q"

section \<open>The catalog\<close>

record CylinderData = GasFormat +
  gasType :: jsstring
  bumpTimeMin :: number
  calTimeMin :: number
  flowRate :: number

text \<open>
  One element of the array literal:
  \<^verbatim>\<open>{ gasType: g, ...formatGasType(l), bumpTimeMin: b, calTimeMin: c, flowRate: f }\<close>.
\<close>

definition entry :: "jsstring \<Rightarrow> jsstring \<Rightarrow> rat \<Rightarrow> rat \<Rightarrow> rat \<Rightarrow> js_error + CylinderData" where
  "entry g l b c f =
     (case formatGasType l of
        Inl e \<Rightarrow> Inl e
      | Inr fmt \<Rightarrow>
          Inr \<lparr>displayName = displayName fmt, components = components fmt,
               gasType = g, bumpTimeMin = lit b, calTimeMin = lit c, flowRate = lit f\<rparr>)"

text \<open>The elements of an array literal are evaluated in order; the first throw aborts.\<close>

fun array_of :: "(js_error + 'a) list \<Rightarrow> js_error + 'a list" where
  "array_of [] = Inr []"
| "array_of (x # xs) =
     (case x of
        Inl e \<Rightarrow> Inl e
      | Inr v \<Rightarrow> (case array_of xs of Inl e \<Rightarrow> Inl e | Inr vs \<Rightarrow> Inr (v # vs)))"

definition cylinderData :: "js_error + CylinderData list" where
  "cylinderData = array_of
     [entry (u ''3 in 1 (O2,LEL,CO)'') (u ''3 in 1 (O2,LEL,CO)'') 0.5 2 0.5,
      entry (u ''3 in 1 (O2,LEL,H2S)'') (u ''3 in 1 (O2,LEL,H2S)'') 0.5 2 0.5,
      entry (u ''4 in 1 (O2,LEL,CO,H2S)'') (u ''4 in 1 (O2,LEL,CO,H2S)'') 0.4 1.5 0.5,
      entry (u ''4 in 1 (O2,LEL,CO,CO2)'') (u ''4 in 1 (O2,LEL,CO,CO2)'') 0.5 2.15 0.5,
      entry (u ''5 in 1 (O2,LEL,CO,H2S,CO2)'') (u ''5 in 1 (O2,LEL,CO,H2S,CO2)'') 0.5 2.15 0.5,
      entry (u ''5 in 1 (O2,LEL,CO,H2S,SO2)'') (u ''5 in 1 (O2,LEL,CO,H2S,SO2)'') 0.75 2.5 0.5,
      entry (u ''Ammonia (NH3)'') (u ''Ammonia (NH3)'') 1 3 0.5,
      entry (u ''Carbon Dioxide (CO2)'') (u ''Carbon Dioxide (CO2)'') 0.5 1.5 0.5,
      entry (u ''Carbon Monoxide (CO)'') (u ''Carbon Monoxide (CO)'') 0.4 1.5 0.5,
      entry (u ''Chlorine (Cl2)'') (u ''Chlorine (Cl2)'') 3 6 0.5]"

text \<open>
  The array that \<open>cylinderData\<close> holds once the module has been evaluated. Were an
  element to throw, the module would not load and \<open>App\<close> would never run.
\<close>

definition catalog :: "CylinderData list" where
  "catalog = (case cylinderData of Inr cs \<Rightarrow> cs | Inl e \<Rightarrow> [])"

text \<open>
  The rows of the table in section 4.1 of the specification: raw label, bumpTimeMin,
  calTimeMin, flowRate.
\<close>

definition table_4_1 :: "(string \<times> rat \<times> rat \<times> rat) list" where
  "table_4_1 =
     [(''3 in 1 (O2,LEL,CO)'', 0.5, 2, 0.5),
      (''3 in 1 (O2,LEL,H2S)'', 0.5, 2, 0.5),
      (''4 in 1 (O2,LEL,CO,H2S)'', 0.4, 1.5, 0.5),
      (''4 in 1 (O2,LEL,CO,CO2)'', 0.5, 2.15, 0.5),
      (''5 in 1 (O2,LEL,CO,H2S,CO2)'', 0.5, 2.15, 0.5),
      (''5 in 1 (O2,LEL,CO,H2S,SO2)'', 0.75, 2.5, 0.5),
      (''Ammonia (NH3)'', 1, 3, 0.5),
      (''Carbon Dioxide (CO2)'', 0.5, 1.5, 0.5),
      (''Carbon Monoxide (CO)'', 0.4, 1.5, 0.5),
      (''Chlorine (Cl2)'', 3, 6, 0.5)]"

section \<open>The usage calculator\<close>

text \<open>
  The state of the component \<open>App\<close>: its six \<^verbatim>\<open>useState\<close> cells. \<open>result\<close> is
  \<open>None\<close> for \<^verbatim>\<open>null\<close>.
\<close>

record app_state =
  selectedGas :: jsstring
  testsPerMonth :: jsstring
  calibrationsPerMonth :: jsstring
  instruments :: jsstring
  result :: "number option"
  error :: jsstring

definition totalUsage :: "CylinderData \<Rightarrow> number \<Rightarrow> number \<Rightarrow> number \<Rightarrow> number" where
  "totalUsage cylinder tests calibrations instrumentCount =
     ((bumpTimeMin cylinder * tests * flowRate cylinder)
      + (calTimeMin cylinder * calibrations * flowRate cylinder))
     * instrumentCount"

text \<open>
  \<open>calculateUsage\<close>. Each \<open>set...\<close> call of the source is the update of one cell;
  an empty string is falsy.
\<close>

definition calculateUsage :: "app_state \<Rightarrow> app_state" where
  "calculateUsage st0 =
     (let st = st0\<lparr>error := []\<rparr> in
      if selectedGas st = [] \<or> testsPerMonth st = [] \<or> calibrationsPerMonth st = []
         \<or> instruments st = []
      then st\<lparr>error := u ''Please fill in all fields''\<rparr>
      else
        case find (\<lambda>c. gasType c = selectedGas st) catalog of
          None \<Rightarrow> st\<lparr>error := u ''Invalid gas type selected''\<rparr>
        | Some cylinder \<Rightarrow>
            let tests = parseInt (testsPerMonth st);
                calibrations = parseInt (calibrationsPerMonth st);
                instrumentCount = parseInt (instruments st)
            in if isNaN tests \<or> isNaN calibrations \<or> isNaN instrumentCount
               then st\<lparr>error := u ''Please enter valid numbers''\<rparr>
               else st\<lparr>result :=
                        Some (parseFloat
                               (toFixed (totalUsage cylinder tests calibrations instrumentCount) 2))\<rparr>)"

text \<open>
  The result as the specification words it (section 4.2), for comparison with
  \<open>calculateUsage\<close>: the formula over the decimal constants of the table and the three
  integers, in exact arithmetic.
\<close>

definition usage_exact :: "rat \<Rightarrow> rat \<Rightarrow> rat \<Rightarrow> int \<Rightarrow> int \<Rightarrow> int \<Rightarrow> rat" where
  "usage_exact bump cal flow tests calibrations instrumentCount =
     ((bump * of_int tests * flow) + (cal * of_int calibrations * flow)) * of_int instrumentCount"

text \<open>
  Rounding to 2 decimal places, half away from zero, as the specification words it:
  a non-negative value goes to the hundredth at or below \<open>x + 0.005\<close>, a negative one
  to the hundredth at or above \<open>x - 0.005\<close>.
\<close>

definition round_half_away2 :: "rat \<Rightarrow> rat" where
  "round_half_away2 x =
     (if 0 \<le> x then of_int \<lfloor>x * 100 + 1 / 2\<rfloor> / 100 else of_int \<lceil>x * 100 - 1 / 2\<rceil> / 100)"

section \<open>Facts about the rounding to binary64\<close>

lemma pow2_pos: "0 < pow2 e"
  by (simp add: pow2_def)

lemma pow2_mono: "e \<le> e' \<Longrightarrow> pow2 e \<le> pow2 e'"
  by (simp add: pow2_def power_int_increasing)

lemma pow2_nat: "0 \<le> e \<Longrightarrow> pow2 e = 2 ^ nat e"
  by (simp add: pow2_def power_int_def)

lemma pow2_add: "pow2 (a + b) = pow2 a * pow2 b"
  by (simp add: pow2_def power_int_add)

lemma pow2_minus: "pow2 (- e) = 1 / pow2 e"
  by (simp add: pow2_def power_int_minus inverse_eq_divide)

lemma ilog2_ge1:
  assumes "1 \<le> q"
  shows "pow2 (ilog2 q) \<le> q \<and> q < pow2 (ilog2 q + 1)"
proof -
  let ?n = "\<lfloor>q\<rfloor>"
  have n: "0 < ?n" using assms by simp
  from bitlen_bounds [OF n]
  have lo: "2 ^ nat (bitlen ?n - 1) \<le> ?n" and hi: "?n < 2 ^ nat (bitlen ?n)" by auto
  have b1: "1 \<le> bitlen ?n" using n bitlen_eq_zero_iff [of ?n] bitlen_nonneg [of ?n] by linarith
  have il: "ilog2 q = bitlen ?n - 1" using assms by (simp add: ilog2_def)
  have "pow2 (bitlen ?n - 1) = of_int (2 ^ nat (bitlen ?n - 1))"
    using b1 by (simp add: pow2_nat)
  also have "\<dots> \<le> of_int ?n" using lo by (simp only: of_int_le_iff)
  also have "\<dots> \<le> q" by simp
  finally have A: "pow2 (ilog2 q) \<le> q" by (simp add: il)
  have "?n + 1 \<le> 2 ^ nat (bitlen ?n)" using hi by simp
  then have "(of_int (?n + 1) :: rat) \<le> of_int (2 ^ nat (bitlen ?n))" by (simp only: of_int_le_iff)
  moreover have "q < of_int (?n + 1)" by linarith
  ultimately have "q < of_int (2 ^ nat (bitlen ?n))" by linarith
  also have "\<dots> = pow2 (bitlen ?n)" using b1 by (simp add: pow2_nat)
  finally have B: "q < pow2 (ilog2 q + 1)" by (simp add: il)
  from A B show ?thesis ..
qed

lemma ilog2_lt1:
  assumes "0 < q" "q < 1"
  shows "pow2 (ilog2 q) \<le> q \<and> q < pow2 (ilog2 q + 1)"
proof -
  let ?m = "\<lceil>1 / q\<rceil> - 1"
  have inv: "1 < 1 / q" using assms by simp
  then have m: "0 < ?m" by linarith
  from bitlen_bounds [OF m]
  have lo: "2 ^ nat (bitlen ?m - 1) \<le> ?m" and hi: "?m < 2 ^ nat (bitlen ?m)" by auto
  have b1: "1 \<le> bitlen ?m" using m bitlen_eq_zero_iff [of ?m] bitlen_nonneg [of ?m] by linarith
  have il: "ilog2 q = - bitlen ?m" using assms by (simp add: ilog2_def)
  \<comment> \<open>1 / q \<le> m + 1 \<le> 2 ^ bitlen m\<close>
  have "1 / q \<le> of_int (?m + 1)" by (simp add: le_of_int_ceiling)
  also have "(of_int (?m + 1) :: rat) \<le> of_int (2 ^ nat (bitlen ?m))"
    using hi by (simp only: of_int_le_iff)
  also have "\<dots> = pow2 (bitlen ?m)" using b1 by (simp add: pow2_nat)
  finally have "1 / q \<le> pow2 (bitlen ?m)" .
  then have "1 / pow2 (bitlen ?m) \<le> q"
    using assms pow2_pos [of "bitlen ?m"] by (simp add: field_simps)
  then have A: "pow2 (ilog2 q) \<le> q" by (simp add: il pow2_minus)
  \<comment> \<open>2 ^ (bitlen m - 1) \<le> m < 1 / q\<close>
  have "pow2 (bitlen ?m - 1) = of_int (2 ^ nat (bitlen ?m - 1))"
    using b1 by (simp add: pow2_nat)
  also have "\<dots> \<le> of_int ?m" using lo by (simp only: of_int_le_iff)
  also have "of_int ?m < 1 / q" by linarith
  finally have "pow2 (bitlen ?m - 1) < 1 / q" .
  then have "q < 1 / pow2 (bitlen ?m - 1)"
    using assms pow2_pos [of "bitlen ?m - 1"] by (simp add: field_simps)
  also have "\<dots> = pow2 (- (bitlen ?m - 1))" by (simp only: pow2_minus)
  finally have B: "q < pow2 (ilog2 q + 1)" by (simp add: il)
  from A B show ?thesis ..
qed

lemma ilog2_bounds: "0 < q \<Longrightarrow> pow2 (ilog2 q) \<le> q \<and> q < pow2 (ilog2 q + 1)"
  using ilog2_ge1 [of q] ilog2_lt1 [of q] by (cases "1 \<le> q") auto

lemma ilog2_eq:
  assumes "pow2 e \<le> q" "q < pow2 (e + 1)"
  shows "ilog2 q = e"
proof -
  have q: "0 < q" using assms(1) pow2_pos [of e] by linarith
  let ?i = "ilog2 q"
  from ilog2_bounds [OF q] have lo: "pow2 ?i \<le> q" and hi: "q < pow2 (?i + 1)" by auto
  have "\<not> ?i < e"
  proof
    assume "?i < e"
    then have "pow2 (?i + 1) \<le> pow2 e" by (intro pow2_mono) simp
    with hi assms(1) show False by linarith
  qed
  moreover have "\<not> e < ?i"
  proof
    assume "e < ?i"
    then have "pow2 (e + 1) \<le> pow2 ?i" by (intro pow2_mono) simp
    with lo assms(2) show False by linarith
  qed
  ultimately show ?thesis by linarith
qed

lemma floor_rat_numeral:
  "\<lfloor>(numeral a / numeral b :: rat)\<rfloor> = numeral a div numeral b"
  using floor_divide_of_int_eq [of "numeral a" "numeral b", where ?'a = rat] by simp

lemma binary64_eval:
  assumes "pow2 e \<le> \<bar>q\<bar>" "\<bar>q\<bar> < pow2 (e + 1)"
  shows "binary64 q =
     (let E = max (e - 52) (- 1074);
          r = of_int (round_even (\<bar>q\<bar> / pow2 E)) * pow2 E
      in if 2 ^ 1024 \<le> r then (if 0 < q then PosInfinity else NegInfinity)
         else Fin (sgn q * r))"
proof -
  have "q \<noteq> 0" using assms(1) pow2_pos [of e] by auto
  moreover have "ilog2 \<bar>q\<bar> = e" using assms by (rule ilog2_eq)
  ultimately show ?thesis by (simp add: binary64_def)
qed

lemma round_even_of_int: "round_even (of_int k) = k"
  by (simp add: round_even_def)

lemma binary64_exact:
  assumes q: "q = of_int m * pow2 e" and m: "\<bar>m\<bar> < 2 ^ 53" and e: "- 1074 \<le> e" "e \<le> 971"
  shows "binary64 q = Fin q"
proof (cases "q = 0")
  case True
  then show ?thesis by (simp add: binary64_def)
next
  case False
  then have q0: "0 < \<bar>q\<bar>" by simp
  define i where "i = ilog2 \<bar>q\<bar>"
  define E where "E = max (i - 52) (- 1074)"
  define a where "a = \<bar>q\<bar>"
  from ilog2_bounds [OF q0] have lo: "pow2 i \<le> a" by (simp add: i_def a_def)
  have aq: "a = of_int \<bar>m\<bar> * pow2 e"
    using pow2_pos [of e] by (simp add: a_def q abs_mult)
  have p53: "pow2 53 = 2 ^ 53" by (simp add: pow2_def)
  have "(of_int \<bar>m\<bar> :: rat) < of_int (2 ^ 53)" using m by (simp only: of_int_less_iff)
  then have "of_int \<bar>m\<bar> * pow2 e < 2 ^ 53 * pow2 e"
    using pow2_pos [of e] by simp
  also have "\<dots> = pow2 (e + 53)" by (simp only: pow2_add p53 mult.commute)
  finally have hi: "a < pow2 (e + 53)" by (simp only: aq)
  have "\<not> e + 53 \<le> i"
  proof
    assume "e + 53 \<le> i"
    then have "pow2 (e + 53) \<le> pow2 i" by (rule pow2_mono)
    with lo hi show False by linarith
  qed
  then have Ee: "E \<le> e" using e by (simp add: E_def)
  have "pow2 e = pow2 ((e - E) + E)" by simp
  also have "\<dots> = pow2 (e - E) * pow2 E" by (rule pow2_add)
  also have "pow2 (e - E) = 2 ^ nat (e - E)" using Ee by (simp add: pow2_nat)
  finally have pe: "pow2 e = 2 ^ nat (e - E) * pow2 E" .
  have "a / pow2 E = of_int \<bar>m\<bar> * (2 ^ nat (e - E) * pow2 E) / pow2 E"
    by (simp only: aq pe [symmetric])
  also have "\<dots> = of_int (\<bar>m\<bar> * 2 ^ nat (e - E))"
    using pow2_pos [of E] by simp
  finally have "round_even (a / pow2 E) = \<bar>m\<bar> * 2 ^ nat (e - E)"
    by (simp only: round_even_of_int)
  then have "of_int (round_even (a / pow2 E)) * pow2 E = of_int \<bar>m\<bar> * (2 ^ nat (e - E) * pow2 E)"
    by simp
  also have "\<dots> = a" by (simp only: aq pe [symmetric])
  finally have r: "of_int (round_even (a / pow2 E)) * pow2 E = a" .
  have "pow2 (e + 53) \<le> pow2 1024" using e by (intro pow2_mono) simp
  also have "pow2 1024 = 2 ^ 1024" by (simp only: pow2_def power_int_numeral)
  finally have lt: "a < 2 ^ 1024" using hi by simp
  have sq: "sgn q * a = q" by (simp add: a_def sgn_mult_abs)
  have "binary64 q =
     (if 2 ^ 1024 \<le> of_int (round_even (a / pow2 E)) * pow2 E
      then (if 0 < q then PosInfinity else NegInfinity)
      else Fin (sgn q * (of_int (round_even (a / pow2 E)) * pow2 E)))"
    using False by (simp only: binary64_def Let_def a_def E_def i_def if_False)
  also have "\<dots> = Fin q" using lt by (simp only: r sq) simp
  finally show ?thesis .
qed

lemma binary64_of_int: "\<bar>i\<bar> < 2 ^ 53 \<Longrightarrow> binary64 (of_int i) = Fin (of_int i)"
  using binary64_exact [of "of_int i" i 0] by (simp add: pow2_def)

section \<open>Evaluating the catalog\<close>

lemmas str_defs = u_def cu_def includes_str_def startsWith_def split.simps replace_parens_def
  trim_def trimStart_def isWhiteSpace_def isLineTerminator_def gas_regex_def

lemma binary64_values:
  "binary64 (1 / 2) = Fin (1 / 2)"
  "binary64 2 = Fin 2"
  "binary64 (2 / 5) = Fin (3602879701896397 / 9007199254740992)"
  "binary64 (3 / 2) = Fin (3 / 2)"
  "binary64 (43 / 20) = Fin (4841369599423283 / 2251799813685248)"
  "binary64 (3 / 4) = Fin (3 / 4)"
  "binary64 (5 / 2) = Fin (5 / 2)"
  "binary64 1 = Fin 1"
  "binary64 3 = Fin 3"
  "binary64 6 = Fin 6"
  by (simp_all add: binary64_eval [where e = "- 1"] binary64_eval [where e = 1]
      binary64_eval [where e = "- 2"] binary64_eval [where e = 0] binary64_eval [where e = 2]
      pow2_def round_even_def Let_def floor_rat_numeral)

lemma cylinderData_eval:
  "cylinderData = Inr
     [\<lparr>displayName = u ''3-in-1 Gas Mixture'', components = [u ''O2'', u ''LEL'', u ''CO''],
       gasType = u ''3 in 1 (O2,LEL,CO)'',
       bumpTimeMin = lit 0.5, calTimeMin = lit 2, flowRate = lit 0.5\<rparr>,
      \<lparr>displayName = u ''3-in-1 Gas Mixture'', components = [u ''O2'', u ''LEL'', u ''H2S''],
       gasType = u ''3 in 1 (O2,LEL,H2S)'',
       bumpTimeMin = lit 0.5, calTimeMin = lit 2, flowRate = lit 0.5\<rparr>,
      \<lparr>displayName = u ''4-in-1 Gas Mixture'',
       components = [u ''O2'', u ''LEL'', u ''CO'', u ''H2S''],
       gasType = u ''4 in 1 (O2,LEL,CO,H2S)'',
       bumpTimeMin = lit 0.4, calTimeMin = lit 1.5, flowRate = lit 0.5\<rparr>,
      \<lparr>displayName = u ''4-in-1 Gas Mixture'',
       components = [u ''O2'', u ''LEL'', u ''CO'', u ''CO2''],
       gasType = u ''4 in 1 (O2,LEL,CO,CO2)'',
       bumpTimeMin = lit 0.5, calTimeMin = lit 2.15, flowRate = lit 0.5\<rparr>,
      \<lparr>displayName = u ''5-in-1 Gas Mixture'',
       components = [u ''O2'', u ''LEL'', u ''CO'', u ''H2S'', u ''CO2''],
       gasType = u ''5 in 1 (O2,LEL,CO,H2S,CO2)'',
       bumpTimeMin = lit 0.5, calTimeMin = lit 2.15, flowRate = lit 0.5\<rparr>,
      \<lparr>displayName = u ''5-in-1 Gas Mixture'',
       components = [u ''O2'', u ''LEL'', u ''CO'', u ''H2S'', u ''SO2''],
       gasType = u ''5 in 1 (O2,LEL,CO,H2S,SO2)'',
       bumpTimeMin = lit 0.75, calTimeMin = lit 2.5, flowRate = lit 0.5\<rparr>,
      \<lparr>displayName = u ''Ammonia'', components = [u ''NH3''],
       gasType = u ''Ammonia (NH3)'',
       bumpTimeMin = lit 1, calTimeMin = lit 3, flowRate = lit 0.5\<rparr>,
      \<lparr>displayName = u ''Carbon Dioxide'', components = [u ''CO2''],
       gasType = u ''Carbon Dioxide (CO2)'',
       bumpTimeMin = lit 0.5, calTimeMin = lit 1.5, flowRate = lit 0.5\<rparr>,
      \<lparr>displayName = u ''Carbon Monoxide'', components = [u ''CO''],
       gasType = u ''Carbon Monoxide (CO)'',
       bumpTimeMin = lit 0.4, calTimeMin = lit 1.5, flowRate = lit 0.5\<rparr>,
      \<lparr>displayName = u ''Chlorine'', components = [u ''Cl2''],
       gasType = u ''Chlorine (Cl2)'',
       bumpTimeMin = lit 3, calTimeMin = lit 6, flowRate = lit 0.5\<rparr>]"
  by (simp add: cylinderData_def entry_def formatGasType_def str_defs)

section \<open>Evaluating the calculator\<close>

lemma binary64_0: "binary64 0 = Fin 0"
  by (simp add: binary64_def)

lemma binary64_1: "binary64 1 = Fin 1"
  using binary64_of_int [of 1] by simp

lemma binary64_numeral:
  "(numeral k :: int) < 2 ^ 53 \<Longrightarrow> binary64 (numeral k) = Fin (numeral k)"
  using binary64_of_int [of "numeral k"] by simp

lemma binary64_neg_numeral:
  "(numeral k :: int) < 2 ^ 53 \<Longrightarrow> binary64 (- numeral k) = Fin (- numeral k)"
  using binary64_of_int [of "- numeral k"] by simp

lemmas binary64_ints = binary64_0 binary64_1 binary64_numeral binary64_neg_numeral

lemmas parseInt_defs = parseInt_def trimStart_def isWhiteSpace_def isLineTerminator_def
  startsWith_def u_def cu_def is_digit_def digit_of_def digits_value_def Let_def

lemma parseInt_values:
  "parseInt (u ''10'') = Fin 10"
  "parseInt (u ''4'') = Fin 4"
  "parseInt (u ''2'') = Fin 2"
  "parseInt (u ''0'') = Fin 0"
  "parseInt (u ''1'') = Fin 1"
  "parseInt (u ''3'') = Fin 3"
  "parseInt (u ''12'') = Fin 12"
  "parseInt (u ''3.9'') = Fin 3"
  "parseInt (u ''12abc'') = Fin 12"
  "parseInt (u ''abc'') = NaN"
  "parseInt (u '' -0x1F'') = Fin (- 31)"
  by (simp_all add: parseInt_defs binary64_ints)

lemma cu_inject: "(cu a = cu b) = (a = b)"
proof
  assume "cu a = cu b"
  then have "(of_nat (of_char a) :: 16 word) = of_nat (of_char b)"
    by (simp only: cu_def of_nat_of_char)
  then have "take_bit 16 (of_char a :: nat) = take_bit 16 (of_char b :: nat)"
    by (simp add: word_of_nat_eq_iff)
  moreover have "(of_char a :: nat) < 2 ^ 16" "(of_char b :: nat) < 2 ^ 16"
    by (rule order_less_trans [OF nat_of_char_less_256], simp)+
  ultimately have "(of_char a :: nat) = of_char b"
    by (simp add: take_bit_nat_eq_self)
  then show "a = b" by simp
qed simp

lemma u_inject: "(u a = u b) = (a = b)"
  unfolding u_def by (rule inj_map_eq_map) (simp add: inj_on_def cu_inject)

lemma u_Nil: "(u a = []) = (a = [])" "([] = u a) = (a = [])"
  by (auto simp: u_def)

lemma catalog_eval:
  "catalog =
     [\<lparr>displayName = u ''3-in-1 Gas Mixture'', components = [u ''O2'', u ''LEL'', u ''CO''],
       gasType = u ''3 in 1 (O2,LEL,CO)'',
       bumpTimeMin = Fin (1 / 2), calTimeMin = Fin 2, flowRate = Fin (1 / 2)\<rparr>,
      \<lparr>displayName = u ''3-in-1 Gas Mixture'', components = [u ''O2'', u ''LEL'', u ''H2S''],
       gasType = u ''3 in 1 (O2,LEL,H2S)'',
       bumpTimeMin = Fin (1 / 2), calTimeMin = Fin 2, flowRate = Fin (1 / 2)\<rparr>,
      \<lparr>displayName = u ''4-in-1 Gas Mixture'',
       components = [u ''O2'', u ''LEL'', u ''CO'', u ''H2S''],
       gasType = u ''4 in 1 (O2,LEL,CO,H2S)'',
       bumpTimeMin = Fin (3602879701896397 / 9007199254740992), calTimeMin = Fin (3 / 2),
       flowRate = Fin (1 / 2)\<rparr>,
      \<lparr>displayName = u ''4-in-1 Gas Mixture'',
       components = [u ''O2'', u ''LEL'', u ''CO'', u ''CO2''],
       gasType = u ''4 in 1 (O2,LEL,CO,CO2)'',
       bumpTimeMin = Fin (1 / 2), calTimeMin = Fin (4841369599423283 / 2251799813685248),
       flowRate = Fin (1 / 2)\<rparr>,
      \<lparr>displayName = u ''5-in-1 Gas Mixture'',
       components = [u ''O2'', u ''LEL'', u ''CO'', u ''H2S'', u ''CO2''],
       gasType = u ''5 in 1 (O2,LEL,CO,H2S,CO2)'',
       bumpTimeMin = Fin (1 / 2), calTimeMin = Fin (4841369599423283 / 2251799813685248),
       flowRate = Fin (1 / 2)\<rparr>,
      \<lparr>displayName = u ''5-in-1 Gas Mixture'',
       components = [u ''O2'', u ''LEL'', u ''CO'', u ''H2S'', u ''SO2''],
       gasType = u ''5 in 1 (O2,LEL,CO,H2S,SO2)'',
       bumpTimeMin = Fin (3 / 4), calTimeMin = Fin (5 / 2), flowRate = Fin (1 / 2)\<rparr>,
      \<lparr>displayName = u ''Ammonia'', components = [u ''NH3''],
       gasType = u ''Ammonia (NH3)'',
       bumpTimeMin = Fin 1, calTimeMin = Fin 3, flowRate = Fin (1 / 2)\<rparr>,
      \<lparr>displayName = u ''Carbon Dioxide'', components = [u ''CO2''],
       gasType = u ''Carbon Dioxide (CO2)'',
       bumpTimeMin = Fin (1 / 2), calTimeMin = Fin (3 / 2), flowRate = Fin (1 / 2)\<rparr>,
      \<lparr>displayName = u ''Carbon Monoxide'', components = [u ''CO''],
       gasType = u ''Carbon Monoxide (CO)'',
       bumpTimeMin = Fin (3602879701896397 / 9007199254740992), calTimeMin = Fin (3 / 2),
       flowRate = Fin (1 / 2)\<rparr>,
      \<lparr>displayName = u ''Chlorine'', components = [u ''Cl2''],
       gasType = u ''Chlorine (Cl2)'',
       bumpTimeMin = Fin 3, calTimeMin = Fin 6, flowRate = Fin (1 / 2)\<rparr>]"
  by (simp add: catalog_def cylinderData_eval lit_def binary64_values)

lemma binary64_products:
  "binary64 (18014398509481985 / 4503599627370496) = Fin 4"
  "binary64 (4841369599423283 / 4503599627370496) = Fin (4841369599423283 / 4503599627370496)"
  "binary64 (107 / 100) = Fin (4818851601286431 / 4503599627370496)"
  "binary64 (39 / 2) = Fin (39 / 2)"
  "binary64 (4841369599423283 / 2251799813685248) = Fin (4841369599423283 / 2251799813685248)"
  by (simp_all add: binary64_eval [where e = 2] binary64_eval [where e = 0]
      binary64_eval [where e = 4] binary64_eval [where e = 1]
      pow2_def round_even_def Let_def floor_rat_numeral)

lemmas calc_defs = calculateUsage_def totalUsage_def isNaN_def Let_def

lemma scenario_A:
  "calculateUsage \<lparr>selectedGas = u ''Carbon Monoxide (CO)'', testsPerMonth = u ''10'',
       calibrationsPerMonth = u ''4'', instruments = u ''2'', result = r, error = e\<rparr>
   = \<lparr>selectedGas = u ''Carbon Monoxide (CO)'', testsPerMonth = u ''10'',
       calibrationsPerMonth = u ''4'', instruments = u ''2'', result = Some (Fin 10), error = []\<rparr>"
  by (simp add: calc_defs parseInt_values catalog_eval u_inject u_Nil
      binary64_ints binary64_values binary64_products floor_rat_numeral)

section \<open>Facts about the string functions\<close>

lemma startsWith_length:
  assumes "startsWith s pat"
  shows "length pat \<le> length s"
proof -
  from assms have "length (take (length pat) s) = length pat"
    by (simp only: startsWith_def)
  then show ?thesis by simp
qed

lemma startsWith_append:
  assumes "startsWith s (a @ b)"
  shows "startsWith s a"
proof -
  from assms have "take (length a) (take (length (a @ b)) s) = take (length a) (a @ b)"
    by (simp only: startsWith_def)
  then show ?thesis by (simp add: startsWith_def min_def)
qed

lemma indexOf_Some_D:
  "indexOf s pat = Some j \<Longrightarrow> j + length pat \<le> length s \<and> startsWith (drop j s) pat"
proof (induction s arbitrary: j)
  case Nil
  then show ?case by (simp add: startsWith_def split: if_splits)
next
  case (Cons c cs)
  show ?case
  proof (cases "startsWith (c # cs) pat")
    case True
    with Cons.prems have "j = 0" by simp
    with True startsWith_length [OF True] show ?thesis by simp
  next
    case False
    with Cons.prems obtain j' where j': "indexOf cs pat = Some j'" "j = Suc j'" by auto
    from Cons.IH [OF j'(1)] j'(2) show ?thesis by simp
  qed
qed

lemma indexOf_exists:
  "startsWith (drop j s) pat \<Longrightarrow> j \<le> length s \<Longrightarrow> indexOf s pat \<noteq> None"
proof (induction s arbitrary: j)
  case Nil
  then show ?case by (simp add: startsWith_def)
next
  case (Cons c cs)
  show ?case
  proof (cases "startsWith (c # cs) pat")
    case True
    then show ?thesis by simp
  next
    case False
    with Cons.prems(1) have "j \<noteq> 0" by (cases j) auto
    then obtain j' where j': "j = Suc j'" by (cases j) auto
    with Cons.prems have "startsWith (drop j' cs) pat" "j' \<le> length cs" by auto
    from Cons.IH [OF this] False show ?thesis by simp
  qed
qed

text \<open>\<open>indexOf\<close> names the first occurrence: the pattern starts at no earlier index.\<close>

lemma indexOf_least:
  "indexOf s pat = Some j \<Longrightarrow> i < j \<Longrightarrow> \<not> startsWith (drop i s) pat"
proof (induction s arbitrary: i j)
  case Nil
  then show ?case by (simp split: if_splits)
next
  case (Cons c cs)
  show ?case
  proof (cases "startsWith (c # cs) pat")
    case True
    with Cons.prems show ?thesis by simp
  next
    case False
    with Cons.prems(1) obtain j' where j': "indexOf cs pat = Some j'" "j = Suc j'" by auto
    show ?thesis
    proof (cases i)
      case 0
      with False show ?thesis by simp
    next
      case (Suc i')
      with Cons.prems(2) j'(2) have "i' < j'" by simp
      from Cons.IH [OF j'(1) this] Suc show ?thesis by simp
    qed
  qed
qed

lemma includes_str_prefix:
  assumes "indexOf s (a @ b) = Some j"
  shows "includes_str s a"
proof -
  from indexOf_Some_D [OF assms] have "startsWith (drop j s) (a @ b)" "j \<le> length s" by auto
  then have "startsWith (drop j s) a" by (auto dest: startsWith_append)
  from indexOf_exists [OF this \<open>j \<le> length s\<close>] show ?thesis by (simp add: includes_str_def)
qed

lemma split_Some:
  "sep \<noteq> [] \<Longrightarrow> indexOf s sep = Some j
   \<Longrightarrow> split s sep = take j s # split (drop (j + length sep) s) sep"
  by (subst split.simps) simp

lemma split_None: "sep \<noteq> [] \<Longrightarrow> indexOf s sep = None \<Longrightarrow> split s sep = [s]"
  by (subst split.simps) simp

lemma split_hd:
  "sep \<noteq> [] \<Longrightarrow>
   \<exists>rest. split s sep = (case indexOf s sep of None \<Rightarrow> s | Some k \<Rightarrow> take k s) # rest"
proof (cases "indexOf s sep")
  case None
  assume "sep \<noteq> []"
  from split_None [OF this None] None show ?thesis by simp
next
  case (Some j)
  assume "sep \<noteq> []"
  from split_Some [OF this Some] Some show ?thesis by simp
qed

lemma set_split: "x \<in> set (split s sep) \<Longrightarrow> set x \<subseteq> set s"
proof (induction s sep arbitrary: x rule: split.induct)
  case (1 s sep)
  show ?case
  proof (cases "sep = []")
    case True
    have "split s sep = map (\<lambda>c. [c]) s" by (subst split.simps) (simp add: True)
    with "1.prems" show ?thesis by auto
  next
    case False
    show ?thesis
    proof (cases "indexOf s sep")
      case None
      with "1.prems" split_None [OF False None] show ?thesis by simp
    next
      case (Some j)
      with "1.prems" split_Some [OF False Some]
      have "x = take j s \<or> x \<in> set (split (drop (j + length sep) s) sep)"
        by simp
      then show ?thesis
      proof
        assume "x = take j s"
        then show ?thesis by (simp add: set_take_subset)
      next
        assume "x \<in> set (split (drop (j + length sep) s) sep)"
        from "1.IH" [OF False Some this] have "set x \<subseteq> set (drop (j + length sep) s)" .
        then show ?thesis using set_drop_subset by fast
      qed
    qed
  qed
qed

lemma startsWith_single: "startsWith s [c] = (\<exists>t. s = c # t)"
  by (cases s) (auto simp: startsWith_def)

lemma indexOf_single_None: "indexOf s [c] = None \<Longrightarrow> count_list s c = 0"
  by (induction s) (auto simp: startsWith_single split: if_splits)

lemma indexOf_single_Some:
  "indexOf s [c] = Some j \<Longrightarrow> count_list s c = Suc (count_list (drop (Suc j) s) c)"
proof (induction s arbitrary: j)
  case Nil
  then show ?case by simp
next
  case (Cons x xs)
  show ?case
  proof (cases "x = c")
    case True
    with Cons.prems have "j = 0" by (simp add: startsWith_single)
    with True show ?thesis by simp
  next
    case False
    with Cons.prems obtain j' where j': "indexOf xs [c] = Some j'" "j = Suc j'"
      by (auto simp: startsWith_single)
    from Cons.IH [OF j'(1)] j'(2) False show ?thesis by simp
  qed
qed

lemma length_split_single: "length (split s [c]) = Suc (count_list s c)"
proof (induction s "[c]" rule: split.induct)
  case (1 s)
  show ?case
  proof (cases "indexOf s [c]")
    case None
    from split_None [OF _ None] indexOf_single_None [OF None] show ?thesis by simp
  next
    case (Some j)
    have "length (split (drop (j + length [c]) s) [c])
        = Suc (count_list (drop (j + length [c]) s) c)"
      by (rule "1.hyps" [OF _ Some]) simp
    with split_Some [OF _ Some] indexOf_single_Some [OF Some] show ?thesis by simp
  qed
qed

lemma count_list_filter: "P c \<Longrightarrow> count_list (filter P xs) c = count_list xs c"
  by (induction xs) auto

lemma set_trim: "set (trim s) \<subseteq> set s"
proof -
  have "set (dropWhile isWhiteSpace (rev (dropWhile isWhiteSpace s)))
      \<subseteq> set (rev (dropWhile isWhiteSpace s))"
    by (auto dest: set_dropWhileD)
  also have "\<dots> \<subseteq> set s" by (auto dest: set_dropWhileD)
  finally show ?thesis by (simp add: trim_def)
qed

lemma trim_prefix: "\<exists>w. dropWhile isWhiteSpace s = trim s @ w \<and> list_all isWhiteSpace w"
proof -
  let ?a = "dropWhile isWhiteSpace s"
  have "rev (dropWhile isWhiteSpace (rev ?a)) @ rev (takeWhile isWhiteSpace (rev ?a))
      = rev (takeWhile isWhiteSpace (rev ?a) @ dropWhile isWhiteSpace (rev ?a))"
    by (simp only: rev_append)
  also have "\<dots> = rev (rev ?a)" by (simp only: takeWhile_dropWhile_id)
  also have "\<dots> = ?a" by (simp only: rev_rev_ident)
  finally have "?a = trim s @ rev (takeWhile isWhiteSpace (rev ?a))"
    by (simp only: trim_def)
  moreover have "list_all isWhiteSpace (rev (takeWhile isWhiteSpace (rev ?a)))"
    by (auto simp: list_all_iff dest: set_takeWhileD)
  ultimately show ?thesis by blast
qed

lemma trim_no_leading: "dropWhile isWhiteSpace (trim s) = trim s"
proof (cases "trim s")
  case Nil
  then show ?thesis by simp
next
  case (Cons x xs)
  from trim_prefix [of s] obtain w where w: "dropWhile isWhiteSpace s = trim s @ w" by blast
  with Cons have "dropWhile isWhiteSpace s = x # xs @ w" by simp
  then have "\<not> isWhiteSpace x" by (metis hd_dropWhile list.sel(1) list.discI)
  with Cons show ?thesis by simp
qed

lemma trim_idem: "trim (trim s) = trim s"
proof -
  have "trim (trim s) = rev (dropWhile isWhiteSpace (rev (trim s)))"
    by (simp add: trim_def [of "trim s"] trim_no_leading)
  also have "rev (trim s) = dropWhile isWhiteSpace (rev (dropWhile isWhiteSpace s))"
    by (simp add: trim_def)
  also have "rev (dropWhile isWhiteSpace \<dots>) = trim s"
    by (simp add: trim_def)
  finally show ?thesis .
qed

lemma trim_append_ws:
  assumes "list_all isWhiteSpace w"
  shows "trim (a @ w) = trim a"
proof (cases "list_all isWhiteSpace a")
  case True
  with assms have "dropWhile isWhiteSpace (a @ w) = []"
    by (simp only: dropWhile_eq_Nil_conv) (auto simp: list_all_iff)
  moreover from True have "dropWhile isWhiteSpace a = []"
    by (simp only: dropWhile_eq_Nil_conv) (auto simp: list_all_iff)
  ultimately show ?thesis by (simp only: trim_def)
next
  case False
  then obtain x where x: "x \<in> set a" "\<not> isWhiteSpace x" by (auto simp: list_all_iff)
  then have d: "dropWhile isWhiteSpace (a @ w) = dropWhile isWhiteSpace a @ w"
    by (rule dropWhile_append1)
  have "dropWhile isWhiteSpace (rev w @ rev (dropWhile isWhiteSpace a))
      = dropWhile isWhiteSpace (rev (dropWhile isWhiteSpace a))"
    using assms by (intro dropWhile_append2) (auto simp: list_all_iff)
  with d show ?thesis by (simp add: trim_def)
qed

section \<open>Facts about the matcher\<close>

lemma atom_ok_Space: "atom_ok Space = isWhiteSpace"
  by (rule ext) simp

lemma atom_ok_Dot: "atom_ok Dot = (\<lambda>c. \<not> isLineTerminator c)"
  by (rule ext) simp

lemma rmatch_group_lazy:
  "rmatch (Group i (LazyStar a)) s c =
     map (\<lambda>k. (drop k s, c(i \<mapsto> take k s))) [0 ..< Suc (length (takeWhile (atom_ok a) s))]"
proof -
  have "length (takeWhile (atom_ok a) s) \<le> length s" by (rule length_takeWhile_le)
  then show ?thesis by (auto simp: comp_def)
qed

lemma concat_map_Nil: "(\<And>x. x \<in> set xs \<Longrightarrow> f x = []) \<Longrightarrow> concat (map f xs) = []"
  by (induction xs) auto

lemma rmatch_lit_Seq:
  "rmatch (Seq (Atom (Lit p)) R) t c =
     (case t of [] \<Rightarrow> [] | x # xs \<Rightarrow> if x = p then rmatch R xs c else [])"
  by (cases t) auto

lemma drop_takeWhile_cases:
  assumes "k \<le> length (takeWhile P t)"
  shows "(k = length (takeWhile P t) \<and> drop k t = dropWhile P t)
         \<or> (\<exists>x xs. drop k t = x # xs \<and> P x)"
proof (cases "k = length (takeWhile P t)")
  case True
  have "drop (length (takeWhile P t)) (takeWhile P t @ dropWhile P t) = dropWhile P t"
    by (simp only: drop_append) simp
  with True show ?thesis by simp
next
  case False
  with assms have k: "k < length (takeWhile P t)" by simp
  then have kt: "k < length t" using length_takeWhile_le [of P t] by linarith
  have "t ! k = takeWhile P t ! k" using k by (rule takeWhile_nth [symmetric])
  moreover have "takeWhile P t ! k \<in> set (takeWhile P t)" using k by (rule nth_mem)
  ultimately have "P (t ! k)" by (auto dest: set_takeWhileD)
  moreover have "drop k t = t ! k # drop (Suc k) t" using kt by (rule Cons_nth_drop_Suc [symmetric])
  ultimately show ?thesis by blast
qed

lemma rmatch_Seq_Star:
  "rmatch (Seq (Star a) X) t c =
     concat (map (\<lambda>k. rmatch X (drop k t) c) (rev [0 ..< Suc (length (takeWhile (atom_ok a) t))]))"
  unfolding rmatch.simps map_map comp_def prod.case ..

lemma rmatch_Seq_Group_Lazy:
  "rmatch (Seq (Group i (LazyStar a)) X) t c =
     concat (map (\<lambda>k. rmatch X (drop k t) (c(i \<mapsto> take k t)))
       [0 ..< Suc (length (takeWhile (atom_ok a) t))])"
  unfolding rmatch.simps(5) rmatch_group_lazy map_map comp_def prod.case ..

lemma rmatch_ws_lit_fail:
  assumes p: "\<not> isWhiteSpace p"
    and t: "case dropWhile isWhiteSpace t of [] \<Rightarrow> True | x # _ \<Rightarrow> x \<noteq> p"
  shows "rmatch (Seq (Star Space) (Seq (Atom (Lit p)) R)) t c = []"
proof -
  have "rmatch (Seq (Atom (Lit p)) R) (drop k t) c = []"
    if "k \<le> length (takeWhile isWhiteSpace t)" for k
    using drop_takeWhile_cases [OF that] p t
    by (auto simp: rmatch_lit_Seq split: list.splits)
  then show ?thesis
    unfolding rmatch_Seq_Star atom_ok_Space by (intro concat_map_Nil) (auto simp del: rmatch.simps)
qed

lemma rmatch_ws_lit:
  assumes w: "list_all isWhiteSpace w" and p: "\<not> isWhiteSpace p"
  shows "rmatch (Seq (Star Space) (Seq (Atom (Lit p)) R)) (w @ p # t) c = rmatch R t c"
proof -
  have tw: "takeWhile isWhiteSpace (w @ p # t) = w"
    using w p by (simp add: takeWhile_append2 list_all_iff)
  have fail: "rmatch (Seq (Atom (Lit p)) R) (drop k (w @ p # t)) c = []" if "k < length w" for k
  proof -
    from that have "drop k w \<noteq> []" by simp
    then obtain x xs where x: "drop k w = x # xs" by (cases "drop k w") auto
    then have "x \<in> set w" by (metis in_set_dropD list.set_intros(1))
    with w have "isWhiteSpace x" by (simp add: list_all_iff)
    with p have "x \<noteq> p" by auto
    with x that show ?thesis by (simp add: rmatch_lit_Seq)
  qed
  have "rmatch (Seq (Star Space) (Seq (Atom (Lit p)) R)) (w @ p # t) c
      = concat (map (\<lambda>k. rmatch (Seq (Atom (Lit p)) R) (drop k (w @ p # t)) c)
          (length w # rev [0 ..< length w]))"
    unfolding rmatch_Seq_Star atom_ok_Space tw by (simp del: rmatch.simps)
  also have "\<dots> = rmatch (Seq (Atom (Lit p)) R) (p # t) c
      @ concat (map (\<lambda>k. rmatch (Seq (Atom (Lit p)) R) (drop k (w @ p # t)) c)
          (rev [0 ..< length w]))"
    by (simp del: rmatch.simps)
  also have "concat (map (\<lambda>k. rmatch (Seq (Atom (Lit p)) R) (drop k (w @ p # t)) c)
          (rev [0 ..< length w])) = []"
    using fail by (intro concat_map_Nil) (simp del: rmatch.simps)
  finally show ?thesis by (simp add: rmatch_lit_Seq del: rmatch.simps)
qed

lemma upt_split:
  assumes "k \<le> d"
  shows "[0 ..< Suc d] = [0 ..< k] @ k # [Suc k ..< Suc d]"
proof -
  have "[0 ..< Suc d] = [0 ..< k + (Suc d - k)]" using assms by simp
  also have "\<dots> = [0 ..< k] @ [k ..< k + (Suc d - k)]" by (rule upt_add_eq_append) simp
  also have "[k ..< k + (Suc d - k)] = k # [Suc k ..< k + (Suc d - k)]"
    using assms by (intro upt_conv_Cons) simp
  finally show ?thesis using assms by simp
qed

lemma rmatch_group_lazy_lit:
  assumes smb: "list_all (\<lambda>x. x \<noteq> q \<and> \<not> isLineTerminator x) smb" and q: "\<not> isLineTerminator q"
  shows "\<exists>others. rmatch (Seq (Group i (LazyStar Dot)) (Atom (Lit q))) (smb @ q # t) c
           = (t, c(i \<mapsto> smb)) # others"
proof -
  define d where "d = length (takeWhile (atom_ok Dot) (smb @ q # t))"
  have "takeWhile (atom_ok Dot) (smb @ q # t) = smb @ takeWhile (atom_ok Dot) (q # t)"
    using smb by (intro takeWhile_append2) (simp add: list_all_iff)
  then have d: "length smb \<le> d" unfolding d_def by (simp only: length_append)
  have fail: "rmatch (Atom (Lit q)) (drop k (smb @ q # t)) c' = []" if "k < length smb" for k c'
  proof -
    from that have "drop k smb \<noteq> []" by simp
    then obtain x xs where x: "drop k smb = x # xs" by (cases "drop k smb") auto
    then have "x \<in> set smb" by (metis in_set_dropD list.set_intros(1))
    with smb have "x \<noteq> q" by (simp add: list_all_iff)
    with x that show ?thesis by simp
  qed
  have "rmatch (Seq (Group i (LazyStar Dot)) (Atom (Lit q))) (smb @ q # t) c
      = concat (map (\<lambda>k. rmatch (Atom (Lit q)) (drop k (smb @ q # t))
                             (c(i \<mapsto> take k (smb @ q # t))))
          ([0 ..< length smb] @ length smb # [Suc (length smb) ..< Suc d]))"
    unfolding rmatch_Seq_Group_Lazy d_def [symmetric] upt_split [OF d] ..
  also have "\<dots> = rmatch (Atom (Lit q)) (q # t) (c(i \<mapsto> smb))
      @ concat (map (\<lambda>k. rmatch (Atom (Lit q)) (drop k (smb @ q # t))
                             (c(i \<mapsto> take k (smb @ q # t))))
          [Suc (length smb) ..< Suc d])"
    using fail by (simp del: rmatch.simps upt_Suc add: concat_map_Nil)
  finally show ?thesis by simp
qed

lemma match_first:
  "rmatch r s Map.empty = (s', caps) # others \<Longrightarrow> match s r = Some caps"
  by (cases s) auto

lemma not_ws_paren: "\<not> isWhiteSpace (cu CHR ''('')" "\<not> isLineTerminator (cu CHR '')'')"
  by (simp_all add: cu_def isWhiteSpace_def isLineTerminator_def)

lemma rstrip_decomp:
  "\<exists>w. s = rev (dropWhile isWhiteSpace (rev s)) @ w \<and> list_all isWhiteSpace w"
proof -
  have "rev (dropWhile isWhiteSpace (rev s)) @ rev (takeWhile isWhiteSpace (rev s))
      = rev (takeWhile isWhiteSpace (rev s) @ dropWhile isWhiteSpace (rev s))"
    by (simp only: rev_append)
  also have "\<dots> = rev (rev s)" by (simp only: takeWhile_dropWhile_id)
  also have "\<dots> = s" by (simp only: rev_rev_ident)
  finally have "s = rev (dropWhile isWhiteSpace (rev s)) @ rev (takeWhile isWhiteSpace (rev s))"
    by (rule sym)
  moreover have "list_all isWhiteSpace (rev (takeWhile isWhiteSpace (rev s)))"
    by (auto simp: list_all_iff dest: set_takeWhileD)
  ultimately show ?thesis by blast
qed

lemma trim_rstrip: "trim (rev (dropWhile isWhiteSpace (rev s))) = trim s"
proof -
  from rstrip_decomp [of s] obtain w where
    w: "s = rev (dropWhile isWhiteSpace (rev s)) @ w" "list_all isWhiteSpace w" by blast
  from trim_append_ws [OF w(2), of "rev (dropWhile isWhiteSpace (rev s))"] w(1)
  show ?thesis by simp
qed

lemma rmatch_gas_regex:
  assumes name: "list_all (\<lambda>x. x \<noteq> cu CHR ''('' \<and> \<not> isLineTerminator x) name"
    and smb: "list_all (\<lambda>x. x \<noteq> cu CHR '')'' \<and> \<not> isLineTerminator x) symbol"
  shows "\<exists>others. rmatch gas_regex (name @ u '' ('' @ symbol @ u '')'') Map.empty
           = ([], [1 \<mapsto> rev (dropWhile isWhiteSpace (rev name)), 2 \<mapsto> symbol]) # others"
proof -
  define n0 where "n0 = rev (dropWhile isWhiteSpace (rev name))"
  define lp where "lp = cu CHR ''(''"
  define rp where "rp = cu CHR '')''"
  define R where "R = Seq (Group 2 (LazyStar Dot)) (Atom (Lit rp))"
  define R2 where "R2 = Seq (Star Space) (Seq (Atom (Lit lp)) R)"
  define s where "s = name @ u '' ('' @ symbol @ u '')''"
  define w where "w = rev (takeWhile isWhiteSpace (rev name))"
  have nm: "name = n0 @ w"
  proof -
    have "rev (dropWhile isWhiteSpace (rev name)) @ rev (takeWhile isWhiteSpace (rev name))
        = rev (takeWhile isWhiteSpace (rev name) @ dropWhile isWhiteSpace (rev name))"
      by (simp only: rev_append)
    also have "\<dots> = rev (rev name)" by (simp only: takeWhile_dropWhile_id)
    also have "\<dots> = name" by (simp only: rev_rev_ident)
    finally show ?thesis by (simp only: n0_def w_def)
  qed
  have w: "list_all isWhiteSpace w"
    by (auto simp: w_def list_all_iff dest: set_takeWhileD)
  have n0_set: "set n0 \<subseteq> set name" by (auto simp: n0_def dest: set_dropWhileD)
  have n0_last: "\<not> isWhiteSpace (last n0)" if "n0 \<noteq> []"
  proof -
    from that have ne: "dropWhile isWhiteSpace (rev name) \<noteq> []" by (simp add: n0_def)
    have "last n0 = hd (dropWhile isWhiteSpace (rev name))"
      using ne by (simp add: n0_def last_rev)
    with ne show ?thesis by (simp add: hd_dropWhile)
  qed
  have s: "s = n0 @ (w @ u '' '') @ lp # (symbol @ rp # [])"
    by (simp add: s_def nm u_def lp_def rp_def)
  have regex: "gas_regex = Seq (Group 1 (LazyStar Dot)) R2"
    by (simp add: gas_regex_def R2_def R_def lp_def rp_def)
  define d where "d = length (takeWhile (atom_ok Dot) s)"
  have "takeWhile (atom_ok Dot) s = n0 @ takeWhile (atom_ok Dot) ((w @ u '' '') @ lp # (symbol @ rp # []))"
    unfolding s using name n0_set by (intro takeWhile_append2) (auto simp: list_all_iff)
  then have d: "length n0 \<le> d" unfolding d_def by (simp only: length_append)
  have fail: "rmatch R2 (drop k s) c = []" if k: "k < length n0" for k c
  proof -
    from k have ne: "drop k n0 \<noteq> []" by simp
    then have "last (drop k n0) = last n0" using k by simp
    moreover from k have "n0 \<noteq> []" by auto
    ultimately have "\<not> isWhiteSpace (last (drop k n0))" using n0_last by simp
    moreover have "last (drop k n0) \<in> set (drop k n0)" using ne by (rule last_in_set)
    ultimately have ex: "\<exists>x \<in> set (drop k n0). \<not> isWhiteSpace x" by blast
    then obtain x where x: "x \<in> set (drop k n0)" "\<not> isWhiteSpace x" by blast
    have dk: "drop k s = drop k n0 @ ((w @ u '' '') @ lp # (symbol @ rp # []))"
      using k by (simp add: s)
    have dw: "dropWhile isWhiteSpace (drop k s)
        = dropWhile isWhiteSpace (drop k n0) @ ((w @ u '' '') @ lp # (symbol @ rp # []))"
      unfolding dk using x by (rule dropWhile_append1)
    from ex have ne2: "dropWhile isWhiteSpace (drop k n0) \<noteq> []"
      by (simp add: dropWhile_eq_Nil_conv)
    then obtain y ys where y: "dropWhile isWhiteSpace (drop k n0) = y # ys"
      by (cases "dropWhile isWhiteSpace (drop k n0)") auto
    then have "y \<in> set (dropWhile isWhiteSpace (drop k n0))" by simp
    then have "y \<in> set n0" by (auto dest!: set_dropWhileD in_set_dropD)
    with n0_set name have "y \<noteq> lp" by (auto simp: list_all_iff lp_def)
    with dw y have "case dropWhile isWhiteSpace (drop k s) of [] \<Rightarrow> True | x # _ \<Rightarrow> x \<noteq> lp"
      by simp
    with not_ws_paren(1) show ?thesis
      unfolding R2_def lp_def by (intro rmatch_ws_lit_fail)
  qed
  have ok: "\<exists>others. rmatch R2 (drop (length n0) s) c = ([], c(2 \<mapsto> symbol)) # others" for c
  proof -
    have dn: "drop (length n0) s = (w @ u '' '') @ lp # (symbol @ rp # [])"
      by (simp add: s)
    have "list_all isWhiteSpace (w @ u '' '')"
      using w by (simp add: u_def cu_def isWhiteSpace_def)
    then have "rmatch R2 ((w @ u '' '') @ lp # (symbol @ rp # [])) c = rmatch R (symbol @ rp # []) c"
      unfolding R2_def lp_def using not_ws_paren(1) by (rule rmatch_ws_lit)
    then have "rmatch R2 (drop (length n0) s) c = rmatch R (symbol @ rp # []) c"
      by (simp only: dn)
    moreover have "\<exists>others. rmatch R (symbol @ rp # []) c = ([], c(2 \<mapsto> symbol)) # others"
      unfolding R_def rp_def using smb not_ws_paren(2) by (intro rmatch_group_lazy_lit)
    ultimately show ?thesis by simp
  qed
  have "rmatch gas_regex s Map.empty
      = concat (map (\<lambda>k. rmatch R2 (drop k s) (Map.empty(1 \<mapsto> take k s)))
          ([0 ..< length n0] @ length n0 # [Suc (length n0) ..< Suc d]))"
    unfolding regex rmatch_Seq_Group_Lazy d_def [symmetric] upt_split [OF d] ..
  also have "\<dots> = rmatch R2 (drop (length n0) s) (Map.empty(1 \<mapsto> take (length n0) s))
      @ concat (map (\<lambda>k. rmatch R2 (drop k s) (Map.empty(1 \<mapsto> take k s)))
          [Suc (length n0) ..< Suc d])"
    using fail by (simp del: rmatch.simps upt_Suc add: concat_map_Nil)
  finally have "\<exists>others. rmatch gas_regex s Map.empty
      = ([], [1 \<mapsto> take (length n0) s, 2 \<mapsto> symbol]) # others"
    using ok [of "Map.empty(1 \<mapsto> take (length n0) s)"] by auto
  moreover have "take (length n0) s = n0" by (simp add: s)
  ultimately show ?thesis by (simp add: s_def n0_def)
qed

lemma gas_regex_captures:
  "(s', caps) \<in> set (rmatch gas_regex t c) \<Longrightarrow> caps 1 \<noteq> None \<and> caps 2 \<noteq> None"
  by (auto simp: gas_regex_def split: list.splits if_splits)

lemma match_Some_D:
  "match s r = Some caps \<Longrightarrow> \<exists>t s'. (s', caps) \<in> set (rmatch r t Map.empty)"
proof (induction s)
  case Nil
  show ?case
  proof (cases "rmatch r [] Map.empty")
    case Nil
    with Nil.prems show ?thesis by simp
  next
    case (Cons y ys)
    with Nil.prems have "(fst y, caps) \<in> set (rmatch r [] Map.empty)"
      by (cases y) auto
    then show ?thesis by blast
  qed
next
  case (Cons x xs)
  show ?case
  proof (cases "rmatch r (x # xs) Map.empty")
    case Nil
    with Cons show ?thesis by simp
  next
    case (Cons y ys)
    with Cons.prems have "(fst y, caps) \<in> set (rmatch r (x # xs) Map.empty)"
      by (cases y) auto
    then show ?thesis by blast
  qed
qed

section \<open>The claims about the catalog builder\<close>

text \<open>
  C1. The claim is that \<open>formatGasType\<close> returns a display name and components for
  every string, also for one that contains \<^verbatim>\<open>" in 1"\<close> without the component list
  after it. The label \<^verbatim>\<open>"3 in 1"\<close> contains \<^verbatim>\<open>" in 1"\<close>, so the first branch is
  taken, but it does not contain the separator \<^verbatim>\<open>" in 1 "\<close> (with the space after
  it): the split has one piece, \<open>rest\<close> is undefined, and \<^verbatim>\<open>rest.replace\<close> throws a
  TypeError.
\<close>

theorem formatGasType_throws: "formatGasType (u ''3 in 1'') = Inl TypeError"
  by (simp add: formatGasType_def str_defs)

text \<open>
  These are the only labels on which \<open>formatGasType\<close> throws: it returns a display name
  and components for every other string.
\<close>

lemma formatGasType_throws_iff:
  "(formatGasType s = Inl TypeError)
     = (includes_str s (u '' in 1'') \<and> \<not> includes_str s (u '' in 1 ''))"
proof (cases "includes_str s (u '' in 1'')")
  case True
  have sep: "u '' in 1 '' \<noteq> []" by (simp add: u_def)
  show ?thesis
  proof (cases "indexOf s (u '' in 1 '')")
    case None
    with True split_None [OF sep None] show ?thesis
      by (simp add: formatGasType_def includes_str_def)
  next
    case (Some j)
    from split_hd [OF sep, of "drop (j + length (u '' in 1 '')) s"] obtain a others where
      "split (drop (j + length (u '' in 1 '')) s) (u '' in 1 '') = a # others" by blast
    with True Some split_Some [OF sep Some] show ?thesis
      by (simp add: formatGasType_def includes_str_def)
  qed
next
  case False
  show ?thesis
  proof (cases "match s gas_regex")
    case None
    with False show ?thesis by (simp add: formatGasType_def)
  next
    case (Some m)
    from match_Some_D [OF Some] gas_regex_captures have "m 1 \<noteq> None \<and> m 2 \<noteq> None" by blast
    with False Some show ?thesis by (auto simp: formatGasType_def)
  qed
qed

text \<open>
  C5, as the claim states it: for every label that contains \<^verbatim>\<open>" in 1"\<close> the result is
  that of rule 1, with \<open>rest\<close> the whole right part of the label. The label
  \<^verbatim>\<open>"a in 1 b in 1 c"\<close> refutes it: \<^verbatim>\<open>split\<close> cuts at every occurrence of the
  separator and the destructuring keeps the first two pieces, so \<open>rest\<close> is \<^verbatim>\<open>"b"\<close>
  and not \<^verbatim>\<open>"b in 1 c"\<close>.
\<close>

theorem formatGasType_mixture_counterexample:
  "includes_str (u ''a in 1 b in 1 c'') (u '' in 1'')
   \<and> parseGasLabel_rule1 (u ''a in 1 b in 1 c'')
       = Some \<lparr>displayName = u ''a-in-1 Gas Mixture'', components = [u ''b in 1 c'']\<rparr>
   \<and> formatGasType (u ''a in 1 b in 1 c'')
       = Inr \<lparr>displayName = u ''a-in-1 Gas Mixture'', components = [u ''b'']\<rparr>"
  by (simp add: formatGasType_def parseGasLabel_rule1_def str_defs)

text \<open>
  C5, as amended: for every label that contains the separator \<^verbatim>\<open>" in 1 "\<close>, at first
  index \<open>j\<close>, \<open>formatGasType\<close> returns the display name \<^verbatim>\<open>"<count>-in-1 Gas Mixture"\<close>,
  where \<open>count\<close> is the text before that occurrence, and the components obtained from
  \<open>rest\<close>, the text after that occurrence up to the next occurrence of the separator
  (or to the end of the label), by deleting all parentheses, splitting on commas and
  trimming each piece; there are as many components as \<open>rest\<close> has commas, plus one, and
  each is trimmed and has no parenthesis. (A label that contains \<^verbatim>\<open>" in 1"\<close> but not
  \<^verbatim>\<open>" in 1 "\<close> is the subject of C1.)
\<close>

theorem formatGasType_mixture:
  assumes "indexOf label (u '' in 1 '') = Some j"
  shows
    "(let after = drop (j + 6) label;
          rest = (case indexOf after (u '' in 1 '') of None \<Rightarrow> after | Some k \<Rightarrow> take k after);
          comps = map trim (split (replace_parens rest) (u '',''))
      in formatGasType label
           = Inr \<lparr>displayName = take j label @ u ''-in-1 Gas Mixture'', components = comps\<rparr>
         \<and> length comps = count_list rest (cu CHR '','') + 1
         \<and> list_all (\<lambda>c. trim c = c \<and> cu CHR ''('' \<notin> set c \<and> cu CHR '')'' \<notin> set c) comps)"
proof -
  define sep where "sep = u '' in 1 ''"
  define after where "after = drop (j + 6) label"
  define rest where
    "rest = (case indexOf after sep of None \<Rightarrow> after | Some k \<Rightarrow> take k after)"
  define comps where "comps = map trim (split (replace_parens rest) (u '',''))"
  have sep: "sep \<noteq> []" "length sep = 6" "sep = u '' in 1'' @ u '' ''"
    by (simp_all add: sep_def u_def)
  have inc: "includes_str label (u '' in 1'')"
    using assms includes_str_prefix [of label "u '' in 1''" "u '' ''" j]
    by (simp add: sep_def [symmetric] sep(3))
  from split_hd [OF sep(1), of after] obtain others where
    others: "split after sep = rest # others" by (auto simp: rest_def)
  from assms have "split label sep = take j label # split after sep"
    using split_Some [OF sep(1), of label j] by (simp add: sep_def after_def sep(2) [unfolded sep_def])
  with others have sp: "split label sep = take j label # rest # others" by simp
  have fmt: "formatGasType label
      = Inr \<lparr>displayName = take j label @ u ''-in-1 Gas Mixture'', components = comps\<rparr>"
    using inc sp by (simp add: formatGasType_def sep_def [symmetric] comps_def)
  have comma: "u '','' = [cu CHR '','']" by (simp add: u_def)
  have "length comps = Suc (count_list (replace_parens rest) (cu CHR '',''))"
    by (simp add: comps_def comma length_split_single)
  also have "count_list (replace_parens rest) (cu CHR '','') = count_list rest (cu CHR '','')"
    unfolding replace_parens_def by (rule count_list_filter) (simp add: cu_inject)
  finally have len: "length comps = count_list rest (cu CHR '','') + 1" by simp
  have each: "list_all (\<lambda>c. trim c = c \<and> cu CHR ''('' \<notin> set c \<and> cu CHR '')'' \<notin> set c) comps"
    unfolding list_all_iff
  proof
    fix c assume "c \<in> set comps"
    then obtain x where x: "x \<in> set (split (replace_parens rest) (u '',''))" "c = trim x"
      by (auto simp: comps_def)
    from set_split [OF x(1)] have "set x \<subseteq> set (replace_parens rest)" .
    with set_trim [of x] x(2) have "set c \<subseteq> set (replace_parens rest)" by blast
    then have "cu CHR ''('' \<notin> set c \<and> cu CHR '')'' \<notin> set c"
      by (auto simp: replace_parens_def)
    with x(2) trim_idem [of x]
    show "trim c = c \<and> cu CHR ''('' \<notin> set c \<and> cu CHR '')'' \<notin> set c" by simp
  qed
  from fmt len each show ?thesis
    by (simp only: Let_def after_def [symmetric] sep_def [symmetric] rest_def [symmetric]
        comps_def [symmetric])
qed

text \<open>The theorem at a label with blanks around a component.\<close>

theorem formatGasType_mixture_witness:
  "formatGasType (u ''4 in 1 (O2, LEL ,CO,H2S)'')
     = Inr \<lparr>displayName = u ''4-in-1 Gas Mixture'',
            components = [u ''O2'', u ''LEL'', u ''CO'', u ''H2S'']\<rparr>"
  using formatGasType_mixture [of "u ''4 in 1 (O2, LEL ,CO,H2S)''" 1]
  by (simp add: str_defs)

text \<open>
  C6, as the claim states it: for every label \<^verbatim>\<open>"<Name> (<Symbol>)"\<close> without
  \<^verbatim>\<open>" in 1"\<close> the display name is the trimmed name and the only component the trimmed
  symbol. A name with a line break in it refutes it: the atom \<^verbatim>\<open>.\<close> of the regular
  expression does not match a line terminator, the match cannot start before the line
  break, and for \<^verbatim>\<open>"a\nb (c)"\<close> the display name is \<^verbatim>\<open>"b"\<close>.
\<close>

theorem formatGasType_single_counterexample:
  "\<not> includes_str ((u ''a'' @ [0xA] @ u ''b'') @ u '' ('' @ u ''c'' @ u '')'') (u '' in 1'')
   \<and> formatGasType ((u ''a'' @ [0xA] @ u ''b'') @ u '' ('' @ u ''c'' @ u '')'')
       = Inr \<lparr>displayName = u ''b'', components = [u ''c'']\<rparr>
   \<and> trim (u ''a'' @ [0xA] @ u ''b'') = u ''a'' @ [0xA] @ u ''b''
   \<and> formatGasType ((u ''a'' @ [0xA] @ u ''b'') @ u '' ('' @ u ''c'' @ u '')'')
       \<noteq> Inr \<lparr>displayName = trim (u ''a'' @ [0xA] @ u ''b''), components = [trim (u ''c'')]\<rparr>"
  by (simp add: formatGasType_def str_defs)

text \<open>
  C6, as amended: for every label \<^verbatim>\<open>"<Name> (<Symbol>)"\<close> that does not contain
  \<^verbatim>\<open>" in 1"\<close>, where the name has no opening parenthesis, the symbol no closing
  parenthesis, and neither has a line terminator (LF, CR, U+2028, U+2029),
  \<open>formatGasType\<close> returns the trimmed name as display name and the trimmed symbol as
  the only component.
\<close>

theorem formatGasType_single:
  assumes "list_all (\<lambda>x. x \<noteq> cu CHR ''('' \<and> \<not> isLineTerminator x) name"
    and "list_all (\<lambda>x. x \<noteq> cu CHR '')'' \<and> \<not> isLineTerminator x) symbol"
    and "\<not> includes_str (name @ u '' ('' @ symbol @ u '')'') (u '' in 1'')"
  shows "formatGasType (name @ u '' ('' @ symbol @ u '')'')
           = Inr \<lparr>displayName = trim name, components = [trim symbol]\<rparr>"
proof -
  from rmatch_gas_regex [OF assms(1,2)] obtain others where
    "rmatch gas_regex (name @ u '' ('' @ symbol @ u '')'') Map.empty
       = ([], [1 \<mapsto> rev (dropWhile isWhiteSpace (rev name)), 2 \<mapsto> symbol]) # others"
    by blast
  then have m: "match (name @ u '' ('' @ symbol @ u '')'') gas_regex
      = Some [1 \<mapsto> rev (dropWhile isWhiteSpace (rev name)), 2 \<mapsto> symbol]"
    by (rule match_first)
  from m assms(3) show ?thesis by (simp add: formatGasType_def trim_rstrip)
qed

text \<open>The theorem at a label with blanks after the name and inside the parentheses.\<close>

theorem formatGasType_single_witness:
  "formatGasType (u ''Nitric  Oxide   (NO )'')
     = Inr \<lparr>displayName = u ''Nitric  Oxide'', components = [u ''NO'']\<rparr>"
  using formatGasType_single [of "u ''Nitric  Oxide  ''" "u ''NO ''"]
  by (simp add: str_defs)

text \<open>
  C3. Evaluating \<open>cylinderData\<close> throws nothing and gives an array of exactly 10
  records; their raw labels, bumpTimeMin, calTimeMin and flowRate are, row by row, those
  of the table in section 4.1; and the displayName and components of each record are
  what \<open>formatGasType\<close> returns on the record's raw label.
\<close>

theorem cylinderData_table:
  "cylinderData = Inr catalog
   \<and> length catalog = 10
   \<and> map (\<lambda>r. (gasType r, bumpTimeMin r, calTimeMin r, flowRate r)) catalog
       = map (\<lambda>(l, b, c, f). (u l, lit b, lit c, lit f)) table_4_1
   \<and> map (\<lambda>r. formatGasType (gasType r)) catalog
       = map (\<lambda>r. Inr \<lparr>displayName = displayName r, components = components r\<rparr>) catalog"
  by (simp add: catalog_def cylinderData_eval table_4_1_def formatGasType_def str_defs)

text \<open>
  C9. In the catalog the gasType keys are pairwise distinct, and in every record
  bumpTimeMin, calTimeMin and flowRate are strictly positive and the components list is
  not empty.
\<close>

theorem catalog_invariant:
  "distinct (map gasType catalog)
   \<and> list_all (\<lambda>r. positive (bumpTimeMin r) \<and> positive (calTimeMin r)
                   \<and> positive (flowRate r) \<and> components r \<noteq> []) catalog"
  by (simp add: catalog_def cylinderData_eval lit_def binary64_values u_def cu_def)

section \<open>Facts about the rounding of the result\<close>

lemma floor_half: "\<lfloor>1 / 2 :: rat\<rfloor> = 0"
  by (rule floor_unique) simp_all

lemma round_half_away2_abs:
  "round_half_away2 x = sgn x * of_int \<lfloor>\<bar>x\<bar> * 100 + 1 / 2\<rfloor> / 100"
proof (cases "0 \<le> x")
  case True
  then show ?thesis by (cases "x = 0") (simp_all add: round_half_away2_def floor_half)
next
  case False
  then have neg: "x < 0" by simp
  have "\<lceil>x * 100 - 1 / 2\<rceil> = - \<lfloor>- (x * 100 - 1 / 2)\<rfloor>" by (simp add: ceiling_def)
  also have "- (x * 100 - 1 / 2) = \<bar>x\<bar> * 100 + 1 / 2" using neg by simp
  finally show ?thesis using neg by (simp add: round_half_away2_def)
qed

lemma round_half_away2_of_int: "round_half_away2 (of_int i) = of_int i"
proof -
  have f: "\<lfloor>(of_int i :: rat) * 100 + 1 / 2\<rfloor> = i * 100"
    by (rule floor_unique) simp_all
  have c: "\<lceil>(of_int i :: rat) * 100 - 1 / 2\<rceil> = i * 100"
    by (rule ceiling_unique) simp_all
  show ?thesis by (simp add: round_half_away2_def f c)
qed

lemma round_even_le: "0 \<le> m \<Longrightarrow> of_int (round_even m) \<le> m + 1 \<and> 0 \<le> round_even m"
proof -
  assume m: "0 \<le> m"
  have f: "of_int \<lfloor>m\<rfloor> \<le> m" by (rule of_int_floor_le)
  have f0: "0 \<le> \<lfloor>m\<rfloor>" using m by simp
  have "round_even m = \<lfloor>m\<rfloor> \<or> round_even m = \<lfloor>m\<rfloor> + 1"
    by (simp add: round_even_def Let_def)
  then show ?thesis
  proof
    assume "round_even m = \<lfloor>m\<rfloor>"
    with f f0 show ?thesis by simp linarith
  next
    assume "round_even m = \<lfloor>m\<rfloor> + 1"
    with f f0 show ?thesis by simp
  qed
qed

lemma binary64_Fin_large_int:
  assumes b: "binary64 q = Fin x" and big: "10 ^ 21 \<le> \<bar>x\<bar>"
  shows "\<exists>i :: int. x = of_int i"
proof -
  have q0: "q \<noteq> 0" using b big by (auto simp: binary64_def)
  define E where "E = max (ilog2 \<bar>q\<bar> - 52) (- 1074)"
  define n where "n = round_even (\<bar>q\<bar> / pow2 E)"
  define r where "r = (of_int n :: rat) * pow2 E"
  from b q0 have x: "x = sgn q * r"
    by (simp add: binary64_def Let_def E_def n_def r_def split: if_splits)
  have m0: "0 \<le> \<bar>q\<bar> / pow2 E" using pow2_pos [of E] by simp
  from round_even_le [OF m0] have n: "of_int n \<le> \<bar>q\<bar> / pow2 E + 1" "0 \<le> n"
    by (simp_all add: n_def)
  have r0: "0 \<le> r" using n(2) pow2_pos [of E] by (simp add: r_def)
  have ax: "\<bar>x\<bar> = r" using q0 r0 by (simp add: x abs_mult)
  show ?thesis
  proof (cases "0 \<le> E")
    case True
    then have rk: "r = of_int (n * 2 ^ nat E)" by (simp add: r_def pow2_nat)
    show ?thesis
    proof (cases "0 < q")
      case True
      with rk have "x = of_int (n * 2 ^ nat E)" by (simp add: x)
      then show ?thesis ..
    next
      case False
      with q0 rk have "x = of_int (- (n * 2 ^ nat E))" by (simp add: x)
      then show ?thesis ..
    qed
  next
    case False
    then have E: "E < 0" by simp
    then have "ilog2 \<bar>q\<bar> - 52 < 0" by (simp add: E_def)
    then have "ilog2 \<bar>q\<bar> + 1 \<le> 52" by simp
    then have "pow2 (ilog2 \<bar>q\<bar> + 1) \<le> pow2 52" by (rule pow2_mono)
    moreover have "\<bar>q\<bar> < pow2 (ilog2 \<bar>q\<bar> + 1)" using ilog2_bounds [of "\<bar>q\<bar>"] q0 by simp
    moreover have "pow2 52 = 2 ^ 52" by (simp add: pow2_def)
    ultimately have q52: "\<bar>q\<bar> < 2 ^ 52" by simp
    have "pow2 E \<le> pow2 0" using E by (intro pow2_mono) simp
    then have pE: "pow2 E \<le> 1" by (simp add: pow2_def)
    have "r \<le> (\<bar>q\<bar> / pow2 E + 1) * pow2 E"
      unfolding r_def using n(1) pow2_pos [of E] by (intro mult_right_mono) simp_all
    also have "\<dots> = \<bar>q\<bar> + pow2 E" using pow2_pos [of E] by (simp add: field_simps)
    also have "\<dots> < 2 ^ 52 + 1" using q52 pE by simp
    finally have "r < 10 ^ 21" by simp
    with big ax show ?thesis by simp
  qed
qed

lemma times_Fin_D: "(a :: number) * b = Fin x \<Longrightarrow> \<exists>q. binary64 q = Fin x"
  by (cases a; cases b) (auto split: if_splits)

lemma totalUsage_Fin_D: "totalUsage c t k n = Fin x \<Longrightarrow> \<exists>q. binary64 q = Fin x"
  unfolding totalUsage_def by (rule times_Fin_D)

lemma rounded_small:
  assumes "\<bar>x\<bar> < 10 ^ 21"
  shows "parseFloat (toFixed (Fin x) 2) = lit (round_half_away2 x)"
  using assms by (simp add: lit_def round_half_away2_abs Let_def)

lemma rounded_large:
  assumes "binary64 q = Fin x" and "10 ^ 21 \<le> \<bar>x\<bar>"
  shows "parseFloat (toFixed (Fin x) 2) = lit (round_half_away2 x)"
proof -
  from binary64_Fin_large_int [OF assms] obtain i :: int where "x = of_int i" ..
  then have "round_half_away2 x = x" by (simp only: round_half_away2_of_int)
  with assms(2) show ?thesis by (simp add: lit_def)
qed

lemma rounded_value:
  assumes "totalUsage c t k n = Fin x"
  shows "parseFloat (toFixed (Fin x) 2) = lit (round_half_away2 x)"
proof (cases "\<bar>x\<bar> < 10 ^ 21")
  case True
  then show ?thesis by (rule rounded_small)
next
  case False
  from totalUsage_Fin_D [OF assms] obtain q where "binary64 q = Fin x" ..
  moreover from False have "10 ^ 21 \<le> \<bar>x\<bar>" by simp
  ultimately show ?thesis by (rule rounded_large)
qed

lemma round_half_away2_nearest:
  "\<exists>m :: int. 0 \<le> m \<and> round_half_away2 x = sgn x * of_int m / 100
     \<and> of_int m / 100 - 1 / 200 \<le> \<bar>x\<bar> \<and> \<bar>x\<bar> < of_int m / 100 + 1 / 200"
proof -
  define m where "m = \<lfloor>\<bar>x\<bar> * 100 + 1 / 2\<rfloor>"
  have lo: "of_int m \<le> \<bar>x\<bar> * 100 + 1 / 2" unfolding m_def by (rule of_int_floor_le)
  have hi: "\<bar>x\<bar> * 100 + 1 / 2 < of_int m + 1"
    using floor_correct [of "\<bar>x\<bar> * 100 + 1 / 2"] by (simp add: m_def)
  have "0 \<le> \<bar>x\<bar> * 100 + 1 / 2" by simp
  then have m0: "0 \<le> m" unfolding m_def by (simp only: zero_le_floor)
  have val: "round_half_away2 x = sgn x * of_int m / 100"
    by (simp add: round_half_away2_abs m_def)
  have l: "of_int m / 100 - 1 / 200 \<le> \<bar>x\<bar>" using lo by simp
  have h: "\<bar>x\<bar> < of_int m / 100 + 1 / 200" using hi by simp
  from m0 val l h show ?thesis by blast
qed

lemma rounded_totalUsage:
  "parseFloat (toFixed (totalUsage c t k n) 2)
     = (case totalUsage c t k n of Fin x \<Rightarrow> lit (round_half_away2 x) | v \<Rightarrow> v)"
proof (cases "totalUsage c t k n")
  case (Fin x)
  from rounded_value [OF Fin] Fin show ?thesis by (simp del: toFixed.simps parseFloat.simps)
qed simp_all

lemma binary64_more:
  "binary64 (27 / 25) = Fin (607985949695017 / 562949953421312)"
  "binary64 (3 / 8) = Fin (3 / 8)"
  "binary64 (43 / 8) = Fin (43 / 8)"
  "binary64 (- (3 / 4)) = Fin (- (3 / 4))"
  "binary64 (- (3 / 8)) = Fin (- (3 / 8))"
  "binary64 (3602879701896397 / 9007199254740992) = Fin (3602879701896397 / 9007199254740992)"
  "binary64 (3602879701896397 / 18014398509481984) = Fin (3602879701896397 / 18014398509481984)"
  "binary64 (17113678584007885 / 18014398509481984) = Fin (4278419646001971 / 4503599627370496)"
  "binary64 (12835258938005913 / 4503599627370496) = Fin (1604407367250739 / 562949953421312)"
  by (simp_all add: binary64_eval [where e = 0] binary64_eval [where e = "- 2"]
      binary64_eval [where e = 2] binary64_eval [where e = "- 1"]
      binary64_eval [where e = "- 3"] binary64_eval [where e = 1]
      pow2_def round_even_def Let_def floor_rat_numeral)

lemma binary64_neg_1: "binary64 (- 1) = Fin (- 1)"
  using binary64_of_int [of "- 1"] by simp

lemma parseInt_minus_1: "parseInt (u ''-1'') = Fin (- 1)"
  by (simp add: parseInt_defs binary64_ints binary64_neg_1)

lemmas eval_simps = calc_defs parseInt_values parseInt_minus_1 catalog_eval u_inject u_Nil lit_def
  binary64_ints binary64_values binary64_products binary64_more floor_rat_numeral

lemma NaN_absorbs:
  "NaN * (a :: number) = NaN" "a * NaN = NaN" "NaN + a = NaN" "a + NaN = NaN"
  by (cases a; simp)+

section \<open>The claims about the usage calculator\<close>

lemma find_None_image: "(find (\<lambda>c. f c = x) xs = None) = (x \<notin> f ` set xs)"
  by (auto simp: find_None_iff)

lemma messages_distinct:
  "u ''Please fill in all fields'' \<noteq> []"
  "u ''Invalid gas type selected'' \<noteq> []"
  "u ''Please enter valid numbers'' \<noteq> []"
  "u ''Please fill in all fields'' \<noteq> u ''Please enter valid numbers''"
  "u ''Invalid gas type selected'' \<noteq> u ''Please enter valid numbers''"
  by (simp_all add: u_inject u_Nil)

text \<open>
  C2, as the claim states it: the result is exactly the formula, rounded to 2 decimal
  places. For "4 in 1 (O2,LEL,CO,CO2)" with 0 tests, 1 calibration and 1 instrument the
  formula is \<open>2.15 * 1 * 0.5 = 1.075\<close>, which rounds to 1.08; \<open>calculateUsage\<close> stores
  1.07, because the binary64 value of \<open>2.15\<close>, and so that of the product, is just below
  the decimal value.
\<close>

theorem calculateUsage_exact_formula_counterexample:
  "result (calculateUsage
      \<lparr>selectedGas = u ''4 in 1 (O2,LEL,CO,CO2)'', testsPerMonth = u ''0'',
       calibrationsPerMonth = u ''1'', instruments = u ''1'', result = None, error = []\<rparr>)
     = Some (lit 1.07)
   \<and> usage_exact 0.5 2.15 0.5 0 1 1 = 1.075
   \<and> round_half_away2 (usage_exact 0.5 2.15 0.5 0 1 1) = 1.08
   \<and> result (calculateUsage
      \<lparr>selectedGas = u ''4 in 1 (O2,LEL,CO,CO2)'', testsPerMonth = u ''0'',
       calibrationsPerMonth = u ''1'', instruments = u ''1'', result = None, error = []\<rparr>)
     \<noteq> Some (lit (round_half_away2 (usage_exact 0.5 2.15 0.5 0 1 1)))"
  by (simp add: eval_simps usage_exact_def round_half_away2_def)

text \<open>
  C2, as amended: when the four fields are filled in, the selected gas is in the
  catalog and the three numbers parse, \<open>calculateUsage\<close> stores the value of
  \<open>((bumpTimeMin * tests * flowRate) + (calTimeMin * calibrations * flowRate)) * instrumentCount\<close>
  computed in binary64 arithmetic (every product and the sum rounded to the nearest
  binary64 number), rounded to 2 decimal places half away from zero: the number that the
  2-decimal numeral denotes. A raw value that is infinite or NaN is stored as it is.
  For "Carbon Monoxide (CO)" with 10 tests, 4 calibrations and 2 instruments the result
  is 10.
\<close>

theorem calculateUsage_binary64_formula:
  "(selectedGas st \<noteq> [] \<and> testsPerMonth st \<noteq> [] \<and> calibrationsPerMonth st \<noteq> []
      \<and> instruments st \<noteq> []
      \<and> find (\<lambda>c. gasType c = selectedGas st) catalog = Some c
      \<and> \<not> isNaN (parseInt (testsPerMonth st))
      \<and> \<not> isNaN (parseInt (calibrationsPerMonth st))
      \<and> \<not> isNaN (parseInt (instruments st))
    \<longrightarrow> result (calculateUsage st) =
          Some (case ((bumpTimeMin c * parseInt (testsPerMonth st) * flowRate c)
                      + (calTimeMin c * parseInt (calibrationsPerMonth st) * flowRate c))
                     * parseInt (instruments st)
                of Fin x \<Rightarrow> lit (round_half_away2 x) | v \<Rightarrow> v))
   \<and> result (calculateUsage
         \<lparr>selectedGas = u ''Carbon Monoxide (CO)'', testsPerMonth = u ''10'',
          calibrationsPerMonth = u ''4'', instruments = u ''2'', result = None, error = []\<rparr>)
       = Some (Fin 10)"
proof (intro conjI impI)
  assume a: "selectedGas st \<noteq> [] \<and> testsPerMonth st \<noteq> [] \<and> calibrationsPerMonth st \<noteq> []
      \<and> instruments st \<noteq> []
      \<and> find (\<lambda>c. gasType c = selectedGas st) catalog = Some c
      \<and> \<not> isNaN (parseInt (testsPerMonth st))
      \<and> \<not> isNaN (parseInt (calibrationsPerMonth st))
      \<and> \<not> isNaN (parseInt (instruments st))"
  then have "result (calculateUsage st)
      = Some (parseFloat (toFixed (totalUsage c (parseInt (testsPerMonth st))
          (parseInt (calibrationsPerMonth st)) (parseInt (instruments st))) 2))"
    by (simp add: calculateUsage_def Let_def)
  then show "result (calculateUsage st) =
          Some (case ((bumpTimeMin c * parseInt (testsPerMonth st) * flowRate c)
                      + (calTimeMin c * parseInt (calibrationsPerMonth st) * flowRate c))
                     * parseInt (instruments st)
                of Fin x \<Rightarrow> lit (round_half_away2 x) | v \<Rightarrow> v)"
    by (simp only: rounded_totalUsage) (simp only: totalUsage_def)
next
  show "result (calculateUsage
         \<lparr>selectedGas = u ''Carbon Monoxide (CO)'', testsPerMonth = u ''10'',
          calibrationsPerMonth = u ''4'', instruments = u ''2'', result = None, error = []\<rparr>)
       = Some (Fin 10)"
    by (simp add: scenario_A)
qed

text \<open>
  The theorem at "4 in 1 (O2,LEL,CO,H2S)" with 1 test, 1 calibration and 3 instruments:
  the raw value is 2.8499999999999996 and the result 2.85.
\<close>

theorem calculateUsage_binary64_formula_witness:
  "result (calculateUsage
      \<lparr>selectedGas = u ''4 in 1 (O2,LEL,CO,H2S)'', testsPerMonth = u ''1'',
       calibrationsPerMonth = u ''1'', instruments = u ''3'', result = None, error = []\<rparr>)
   = Some (lit 2.85)"
  using calculateUsage_binary64_formula [of
      "\<lparr>selectedGas = u ''4 in 1 (O2,LEL,CO,H2S)'', testsPerMonth = u ''1'',
        calibrationsPerMonth = u ''1'', instruments = u ''3'', result = None, error = []\<rparr>"
      "\<lparr>displayName = u ''4-in-1 Gas Mixture'',
        components = [u ''O2'', u ''LEL'', u ''CO'', u ''H2S''],
        gasType = u ''4 in 1 (O2,LEL,CO,H2S)'',
        bumpTimeMin = Fin (3602879701896397 / 9007199254740992), calTimeMin = Fin (3 / 2),
        flowRate = Fin (1 / 2)\<rparr>"]
  by (simp add: parseInt_values catalog_eval u_inject u_Nil isNaN_def lit_def
      binary64_ints binary64_values binary64_products binary64_more floor_rat_numeral
      round_half_away2_def)

text \<open>
  C4. \<open>calculateUsage\<close> checks in a fixed order and reports the first check that fails:
  "Please fill in all fields" (MissingField) when the gas or one of the three numeric
  strings is empty; otherwise "Invalid gas type selected" (UnknownGasType) when no
  record of the catalog has the selected gasType; otherwise "Please enter valid numbers"
  (InvalidNumber) when \<open>parseInt\<close> of one of the three strings is NaN; otherwise no error,
  and then a numeric result is stored.
\<close>

theorem calculateUsage_validation_order:
  "error (calculateUsage st) =
     (if selectedGas st = [] \<or> testsPerMonth st = [] \<or> calibrationsPerMonth st = []
         \<or> instruments st = []
      then u ''Please fill in all fields''
      else if selectedGas st \<notin> gasType ` set catalog
      then u ''Invalid gas type selected''
      else if isNaN (parseInt (testsPerMonth st)) \<or> isNaN (parseInt (calibrationsPerMonth st))
              \<or> isNaN (parseInt (instruments st))
      then u ''Please enter valid numbers''
      else [])
   \<and> (error (calculateUsage st) = [] \<longrightarrow> (\<exists>r. result (calculateUsage st) = Some r))"
  by (auto simp: calculateUsage_def Let_def find_None_image [symmetric] messages_distinct
      split: option.splits)

text \<open>Scenarios C, E and D of the specification, and an input that passes the three checks.\<close>

theorem calculateUsage_validation_order_witness:
  "error (calculateUsage
      \<lparr>selectedGas = [], testsPerMonth = u ''1'', calibrationsPerMonth = u ''1'',
       instruments = u ''1'', result = None, error = []\<rparr>)
     = u ''Please fill in all fields''
   \<and> error (calculateUsage
      \<lparr>selectedGas = u ''Unknown Gas (XX)'', testsPerMonth = u ''1'',
       calibrationsPerMonth = u ''1'', instruments = u ''1'', result = None, error = []\<rparr>)
     = u ''Invalid gas type selected''
   \<and> error (calculateUsage
      \<lparr>selectedGas = u ''Ammonia (NH3)'', testsPerMonth = u ''abc'',
       calibrationsPerMonth = u ''1'', instruments = u ''1'', result = None, error = []\<rparr>)
     = u ''Please enter valid numbers''
   \<and> error (calculateUsage
      \<lparr>selectedGas = u ''Ammonia (NH3)'', testsPerMonth = u ''1'',
       calibrationsPerMonth = u ''1'', instruments = u ''1'', result = None, error = []\<rparr>)
     = []
   \<and> (\<exists>r. result (calculateUsage
      \<lparr>selectedGas = u ''Ammonia (NH3)'', testsPerMonth = u ''1'',
       calibrationsPerMonth = u ''1'', instruments = u ''1'', result = None, error = []\<rparr>)
     = Some r)"
  using
    calculateUsage_validation_order [of
      "\<lparr>selectedGas = [], testsPerMonth = u ''1'', calibrationsPerMonth = u ''1'',
        instruments = u ''1'', result = None, error = []\<rparr>"]
    calculateUsage_validation_order [of
      "\<lparr>selectedGas = u ''Unknown Gas (XX)'', testsPerMonth = u ''1'',
        calibrationsPerMonth = u ''1'', instruments = u ''1'', result = None, error = []\<rparr>"]
    calculateUsage_validation_order [of
      "\<lparr>selectedGas = u ''Ammonia (NH3)'', testsPerMonth = u ''abc'',
        calibrationsPerMonth = u ''1'', instruments = u ''1'', result = None, error = []\<rparr>"]
    calculateUsage_validation_order [of
      "\<lparr>selectedGas = u ''Ammonia (NH3)'', testsPerMonth = u ''1'',
        calibrationsPerMonth = u ''1'', instruments = u ''1'', result = None, error = []\<rparr>"]
  by (simp add: parseInt_values catalog_eval u_inject u_Nil isNaN_def)

text \<open>
  C7. The claim is that every invocation replaces any prior result or error. The error
  cell is reset at the start of every invocation (\<^verbatim>\<open>setError('')\<close>), but the result
  cell is written only on success and never reset. After a successful calculation
  (result 10) the user empties the tests field and calculates again: the error
  "Please fill in all fields" is set and the prior result 10 is still in the state; the
  page shows both, since it renders \<^verbatim>\<open>{error && ...}\<close> and
  \<^verbatim>\<open>{result !== null && ...}\<close> independently.
\<close>

theorem calculateUsage_keeps_stale_result:
  "(let st1 = calculateUsage
        \<lparr>selectedGas = u ''Carbon Monoxide (CO)'', testsPerMonth = u ''10'',
         calibrationsPerMonth = u ''4'', instruments = u ''2'', result = None, error = []\<rparr>;
       st2 = calculateUsage (st1\<lparr>testsPerMonth := []\<rparr>)
   in result st1 = Some (Fin 10)
      \<and> error st2 = u ''Please fill in all fields''
      \<and> result st2 = Some (Fin 10))"
  by (simp add: scenario_A) (simp add: calculateUsage_def)

text \<open>
  The same in general: an invocation that ends with an error leaves the result cell as it
  was, and one that stores a result leaves no error.
\<close>

lemma calculateUsage_error_keeps_result:
  "error (calculateUsage st) \<noteq> [] \<Longrightarrow> result (calculateUsage st) = result st"
  by (auto simp: calculateUsage_def Let_def split: option.splits if_splits)

lemma calculateUsage_success_clears_error:
  "result (calculateUsage st) \<noteq> result st \<Longrightarrow> error (calculateUsage st) = []"
  by (auto simp: calculateUsage_def Let_def split: option.splits if_splits)

lemma binary64_10_005:
  "binary64 (2001 / 200) = Fin (5632314283980227 / 562949953421312)"
  by (simp add: binary64_eval [where e = 3] pow2_def round_even_def Let_def floor_rat_numeral)

text \<open>
  C8, as the claim states it: the result is the value of the computation rounded half
  away from zero, the same way on every boundary case. For
  "5 in 1 (O2,LEL,CO,H2S,CO2)" with 0, 1, 1 the computation yields the decimal tie 1.075,
  which half away from zero is 1.08, and the result is 1.07; for
  "5 in 1 (O2,LEL,CO,H2S,SO2)" with 1, 4, 1 it yields the tie 5.375 and the result is
  5.38. Of two decimal ties one goes down and one up.
\<close>

theorem calculateUsage_decimal_tie_counterexample:
  "usage_exact 0.5 2.15 0.5 0 1 1 = 1.075
   \<and> round_half_away2 1.075 = 1.08
   \<and> result (calculateUsage
      \<lparr>selectedGas = u ''5 in 1 (O2,LEL,CO,H2S,CO2)'', testsPerMonth = u ''0'',
       calibrationsPerMonth = u ''1'', instruments = u ''1'', result = None, error = []\<rparr>)
     = Some (lit 1.07)
   \<and> lit 1.07 \<noteq> lit 1.08
   \<and> usage_exact 0.75 2.5 0.5 1 4 1 = 5.375
   \<and> round_half_away2 5.375 = 5.38
   \<and> result (calculateUsage
      \<lparr>selectedGas = u ''5 in 1 (O2,LEL,CO,H2S,SO2)'', testsPerMonth = u ''1'',
       calibrationsPerMonth = u ''4'', instruments = u ''1'', result = None, error = []\<rparr>)
     = Some (lit 5.38)"
  by (simp add: eval_simps usage_exact_def round_half_away2_def)

text \<open>
  C8, as amended: the result of \<open>calculateUsage\<close> is the binary64 value \<open>x\<close> of the raw
  computation rounded to 2 decimal places half away from zero: it is the number that
  the numeral \<open>sgn x * m / 100\<close> denotes, where \<open>m\<close> is the integer with
  \<open>m / 100 - 0.005 \<le> |x| < m / 100 + 0.005\<close>. The raw binary64 value 10.005 gives 10.01.
  A decimal tie is rounded as its binary64 value is: 5.375 and -0.375 are binary64
  values, true ties, and give 5.38 and -0.38; 1.075 is not, the raw value is just below
  it, and gives 1.07.
\<close>

theorem calculateUsage_rounds_half_away:
  "(selectedGas st \<noteq> [] \<and> testsPerMonth st \<noteq> [] \<and> calibrationsPerMonth st \<noteq> []
      \<and> instruments st \<noteq> []
      \<and> find (\<lambda>c. gasType c = selectedGas st) catalog = Some c
      \<and> totalUsage c (parseInt (testsPerMonth st)) (parseInt (calibrationsPerMonth st))
            (parseInt (instruments st)) = Fin x
    \<longrightarrow> (\<exists>m :: int. 0 \<le> m
          \<and> result (calculateUsage st) = Some (lit (sgn x * of_int m / 100))
          \<and> of_int m / 100 - 1 / 200 \<le> \<bar>x\<bar>
          \<and> \<bar>x\<bar> < of_int m / 100 + 1 / 200))
   \<and> parseFloat (toFixed (lit 10.005) 2) = lit 10.01
   \<and> result (calculateUsage
        \<lparr>selectedGas = u ''5 in 1 (O2,LEL,CO,H2S,SO2)'', testsPerMonth = u ''1'',
         calibrationsPerMonth = u ''4'', instruments = u ''1'', result = None, error = []\<rparr>)
       = Some (lit 5.38)
   \<and> result (calculateUsage
        \<lparr>selectedGas = u ''5 in 1 (O2,LEL,CO,H2S,SO2)'', testsPerMonth = u ''-1'',
         calibrationsPerMonth = u ''0'', instruments = u ''1'', result = None, error = []\<rparr>)
       = Some (lit (- 0.38))"
proof (intro conjI impI)
  assume a: "selectedGas st \<noteq> [] \<and> testsPerMonth st \<noteq> [] \<and> calibrationsPerMonth st \<noteq> []
      \<and> instruments st \<noteq> []
      \<and> find (\<lambda>c. gasType c = selectedGas st) catalog = Some c
      \<and> totalUsage c (parseInt (testsPerMonth st)) (parseInt (calibrationsPerMonth st))
            (parseInt (instruments st)) = Fin x"
  then have tu: "totalUsage c (parseInt (testsPerMonth st)) (parseInt (calibrationsPerMonth st))
            (parseInt (instruments st)) = Fin x" by simp
  have nn: "parseInt (testsPerMonth st) \<noteq> NaN \<and> parseInt (calibrationsPerMonth st) \<noteq> NaN
      \<and> parseInt (instruments st) \<noteq> NaN"
    using tu by (auto simp: totalUsage_def NaN_absorbs)
  from a nn have "result (calculateUsage st)
      = Some (parseFloat (toFixed (totalUsage c (parseInt (testsPerMonth st))
          (parseInt (calibrationsPerMonth st)) (parseInt (instruments st))) 2))"
    by (simp add: calculateUsage_def Let_def isNaN_def)
  also have "\<dots> = Some (lit (round_half_away2 x))"
    by (simp only: tu rounded_value [OF tu])
  finally have r: "result (calculateUsage st) = Some (lit (round_half_away2 x))" .
  from round_half_away2_nearest [of x] obtain m :: int where
    "0 \<le> m" "round_half_away2 x = sgn x * of_int m / 100"
    "of_int m / 100 - 1 / 200 \<le> \<bar>x\<bar>" "\<bar>x\<bar> < of_int m / 100 + 1 / 200"
    by blast
  with r show "\<exists>m :: int. 0 \<le> m
          \<and> result (calculateUsage st) = Some (lit (sgn x * of_int m / 100))
          \<and> of_int m / 100 - 1 / 200 \<le> \<bar>x\<bar>
          \<and> \<bar>x\<bar> < of_int m / 100 + 1 / 200"
    by auto
next
  show "parseFloat (toFixed (lit 10.005) 2) = lit 10.01"
    by (simp add: lit_def binary64_10_005 floor_rat_numeral)
next
  show "result (calculateUsage
        \<lparr>selectedGas = u ''5 in 1 (O2,LEL,CO,H2S,SO2)'', testsPerMonth = u ''1'',
         calibrationsPerMonth = u ''4'', instruments = u ''1'', result = None, error = []\<rparr>)
       = Some (lit 5.38)"
    by (simp add: eval_simps)
next
  show "result (calculateUsage
        \<lparr>selectedGas = u ''5 in 1 (O2,LEL,CO,H2S,SO2)'', testsPerMonth = u ''-1'',
         calibrationsPerMonth = u ''0'', instruments = u ''1'', result = None, error = []\<rparr>)
       = Some (lit (- 0.38))"
    by (simp add: eval_simps)
qed

text \<open>
  The theorem at "5 in 1 (O2,LEL,CO,H2S,SO2)" with 1 test, 0 calibrations and
  1 instrument, where the raw value is the tie 0.375.
\<close>

theorem calculateUsage_rounds_half_away_witness:
  "\<exists>m :: int. 0 \<le> m
     \<and> result (calculateUsage
          \<lparr>selectedGas = u ''5 in 1 (O2,LEL,CO,H2S,SO2)'', testsPerMonth = u ''1'',
           calibrationsPerMonth = u ''0'', instruments = u ''1'', result = None, error = []\<rparr>)
         = Some (lit (sgn (3 / 8) * of_int m / 100))
     \<and> of_int m / 100 - 1 / 200 \<le> \<bar>3 / 8 :: rat\<bar>
     \<and> \<bar>3 / 8 :: rat\<bar> < of_int m / 100 + 1 / 200"
proof -
  have "totalUsage
      \<lparr>displayName = u ''5-in-1 Gas Mixture'',
       components = [u ''O2'', u ''LEL'', u ''CO'', u ''H2S'', u ''SO2''],
       gasType = u ''5 in 1 (O2,LEL,CO,H2S,SO2)'',
       bumpTimeMin = Fin (3 / 4), calTimeMin = Fin (5 / 2), flowRate = Fin (1 / 2)\<rparr>
      (parseInt (u ''1'')) (parseInt (u ''0'')) (parseInt (u ''1'')) = Fin (3 / 8)"
    by (simp add: totalUsage_def parseInt_values binary64_ints binary64_values binary64_more)
  with calculateUsage_rounds_half_away [of
      "\<lparr>selectedGas = u ''5 in 1 (O2,LEL,CO,H2S,SO2)'', testsPerMonth = u ''1'',
        calibrationsPerMonth = u ''0'', instruments = u ''1'', result = None, error = []\<rparr>"
      "\<lparr>displayName = u ''5-in-1 Gas Mixture'',
        components = [u ''O2'', u ''LEL'', u ''CO'', u ''H2S'', u ''SO2''],
        gasType = u ''5 in 1 (O2,LEL,CO,H2S,SO2)'',
        bumpTimeMin = Fin (3 / 4), calTimeMin = Fin (5 / 2), flowRate = Fin (1 / 2)\<rparr>"
      "3 / 8"]
  show ?thesis
    by (simp add: catalog_eval u_inject u_Nil)
qed

text \<open>
  C10. \<open>calculateUsage\<close> reports "Please enter valid numbers" (InvalidNumber) exactly
  when the first two checks pass and \<open>parseInt\<close> of one of the three strings is NaN.
  \<open>parseInt\<close> reads the leading integer and ignores what follows it: "3.9" parses as 3
  and "12abc" as 12. Such inputs are accepted and give the same result as "3" and "12".
\<close>

theorem parseInt_prefix_accepted:
  "(error (calculateUsage st) = u ''Please enter valid numbers'')
     = (selectedGas st \<noteq> [] \<and> testsPerMonth st \<noteq> [] \<and> calibrationsPerMonth st \<noteq> []
        \<and> instruments st \<noteq> [] \<and> selectedGas st \<in> gasType ` set catalog
        \<and> (parseInt (testsPerMonth st) = NaN \<or> parseInt (calibrationsPerMonth st) = NaN
            \<or> parseInt (instruments st) = NaN))
   \<and> parseInt (u ''3.9'') = Fin 3
   \<and> parseInt (u ''12abc'') = Fin 12
   \<and> calculateUsage
        \<lparr>selectedGas = u ''Ammonia (NH3)'', testsPerMonth = u ''3.9'',
         calibrationsPerMonth = u ''12abc'', instruments = u ''1'', result = None, error = []\<rparr>
       = \<lparr>selectedGas = u ''Ammonia (NH3)'', testsPerMonth = u ''3.9'',
         calibrationsPerMonth = u ''12abc'', instruments = u ''1'',
         result = Some (Fin (39 / 2)), error = []\<rparr>
   \<and> result (calculateUsage
        \<lparr>selectedGas = u ''Ammonia (NH3)'', testsPerMonth = u ''3'',
         calibrationsPerMonth = u ''12'', instruments = u ''1'', result = None, error = []\<rparr>)
       = Some (Fin (39 / 2))"
proof -
  have mem: "(selectedGas st \<in> gasType ` set catalog)
      = (find (\<lambda>c. gasType c = selectedGas st) catalog \<noteq> None)"
    by (simp add: find_None_image)
  have A: "(error (calculateUsage st) = u ''Please enter valid numbers'')
     = (selectedGas st \<noteq> [] \<and> testsPerMonth st \<noteq> [] \<and> calibrationsPerMonth st \<noteq> []
        \<and> instruments st \<noteq> [] \<and> selectedGas st \<in> gasType ` set catalog
        \<and> (parseInt (testsPerMonth st) = NaN \<or> parseInt (calibrationsPerMonth st) = NaN
            \<or> parseInt (instruments st) = NaN))"
    unfolding mem
    by (auto simp: calculateUsage_def Let_def isNaN_def messages_distinct
        messages_distinct [symmetric] split: option.splits)
  have B: "calculateUsage
        \<lparr>selectedGas = u ''Ammonia (NH3)'', testsPerMonth = u ''3.9'',
         calibrationsPerMonth = u ''12abc'', instruments = u ''1'', result = None, error = []\<rparr>
       = \<lparr>selectedGas = u ''Ammonia (NH3)'', testsPerMonth = u ''3.9'',
         calibrationsPerMonth = u ''12abc'', instruments = u ''1'',
         result = Some (Fin (39 / 2)), error = []\<rparr>"
    by (simp add: calc_defs parseInt_values catalog_eval u_inject u_Nil
        binary64_ints binary64_values binary64_products floor_rat_numeral)
  have C: "result (calculateUsage
        \<lparr>selectedGas = u ''Ammonia (NH3)'', testsPerMonth = u ''3'',
         calibrationsPerMonth = u ''12'', instruments = u ''1'', result = None, error = []\<rparr>)
       = Some (Fin (39 / 2))"
    by (simp add: calc_defs parseInt_values catalog_eval u_inject u_Nil
        binary64_ints binary64_values binary64_products floor_rat_numeral)
  from A B C show ?thesis by (simp only: parseInt_values)
qed

end
